theory Spec2Isabelle
  imports Complex_Main
begin

unbundle bit_operations_syntax

section \<open>Strings\<close>

text \<open>
  The engine works on JavaScript strings. They are modelled as \<open>string\<close>; the
  character classes the engine tests (\<open>[0-9A-Fa-f]\<close>, white space, ASCII letters)
  are written out. Case conversion touches the ASCII letters only.
\<close>

definition isHexDigit :: "char \<Rightarrow> bool" where
  "isHexDigit c = (c \<in> set ''0123456789ABCDEFabcdef'')"

definition isSpace :: "char \<Rightarrow> bool" where
  "isSpace c = (c \<in> set [CHR '' '', CHR 0x09, CHR 0x0A, CHR 0x0B, CHR 0x0C, CHR 0x0D])"

definition toUpperChar :: "char \<Rightarrow> char" where
  "toUpperChar c =
     (case map_of (zip ''abcdefghijklmnopqrstuvwxyz'' ''ABCDEFGHIJKLMNOPQRSTUVWXYZ'') c of
        Some u \<Rightarrow> u | None \<Rightarrow> c)"

definition toLowerChar :: "char \<Rightarrow> char" where
  "toLowerChar c =
     (case map_of (zip ''ABCDEFGHIJKLMNOPQRSTUVWXYZ'' ''abcdefghijklmnopqrstuvwxyz'') c of
        Some l \<Rightarrow> l | None \<Rightarrow> c)"

definition toUpperCase :: "string \<Rightarrow> string" where
  "toUpperCase s = map toUpperChar s"

definition toLowerCase :: "string \<Rightarrow> string" where
  "toLowerCase s = map toLowerChar s"

definition startsWith :: "string \<Rightarrow> string \<Rightarrow> bool" where
  "startsWith s p = (take (length p) s = p)"

fun includesStr :: "string \<Rightarrow> string \<Rightarrow> bool" where
  "includesStr [] sub = (sub = [])"
| "includesStr (c # cs) sub = (startsWith (c # cs) sub \<or> includesStr cs sub)"

definition trim :: "string \<Rightarrow> string" where
  "trim s = rev (dropWhile isSpace (rev (dropWhile isSpace s)))"

text \<open>\<open>padStart(n, '0')\<close>.\<close>

definition padStart0 :: "nat \<Rightarrow> string \<Rightarrow> string" where
  "padStart0 n s = replicate (n - length s) CHR ''0'' @ s"

text \<open>\<open>String(n)\<close> and \<open>n.toString(16)\<close> for an integer-valued number.\<close>

fun digitsOf :: "nat \<Rightarrow> nat \<Rightarrow> string" where
  "digitsOf base n =
     (if base < 2 \<or> n < base then [''0123456789abcdef'' ! n]
      else digitsOf base (n div base) @ [''0123456789abcdef'' ! (n mod base)])"

definition showInt :: "int \<Rightarrow> string" where
  "showInt i = (if i < 0 then CHR ''-'' # digitsOf 10 (nat (- i)) else digitsOf 10 (nat i))"

definition toString16 :: "int \<Rightarrow> string" where
  "toString16 i = (if i < 0 then CHR ''-'' # digitsOf 16 (nat (- i)) else digitsOf 16 (nat i))"

section \<open>Errors\<close>

text \<open>Every \<open>throw\<close> of the engine that the model reaches is a value of this type.\<close>

datatype error =
    InvalidHexToken string
  | MissingManualIndex string
  | ManualIndexOutOfBounds string
  | ChecksumIndexNotLast string
  | IndexOutsideArray
  | UnknownSelector string
  | NoCommandForSetCode string
  | NumericRequiresValue string
  | ValueNotValidForCommand string
  | SanityRowMissing string
  | SendFailed

section \<open>Codes and hex frames\<close>

text \<open>\<open>normalizeCode\<close>: \<open>null\<close>, \<open>undefined\<close> and the empty string give \<open>null\<close>.\<close>

definition stripLeading0x :: "string \<Rightarrow> string" where
  "stripLeading0x s =
     (case s of a # b # rest \<Rightarrow>
        (if a = CHR ''0'' \<and> (b = CHR ''x'' \<or> b = CHR ''X'') then rest else s)
      | _ \<Rightarrow> s)"

definition normalizeCode :: "string option \<Rightarrow> string option" where
  "normalizeCode input =
     (case input of
        None \<Rightarrow> None
      | Some s \<Rightarrow>
          (if s = [] then None
           else let normalized = toUpperCase (filter isHexDigit (stripLeading0x s))
                in if normalized = [] then None else Some (padStart0 4 normalized)))"

definition toCode :: "string option \<Rightarrow> string option" where
  "toCode code = (case normalizeCode code of Some n \<Rightarrow> Some (''0x'' @ n) | None \<Rightarrow> None)"

text \<open>\<open>normalizeHex\<close>, one definition per \<open>replace\<close> of the source.\<close>

fun stripAll0x :: "string \<Rightarrow> string" where
  "stripAll0x (a # b # rest) =
     (if a = CHR ''0'' \<and> (b = CHR ''x'' \<or> b = CHR ''X'') then stripAll0x rest
      else a # stripAll0x (b # rest))"
| "stripAll0x s = s"

fun collapseSpaces :: "bool \<Rightarrow> string \<Rightarrow> string" where
  "collapseSpaces inRun [] = []"
| "collapseSpaces inRun (c # cs) =
     (if isSpace c then (if inRun then collapseSpaces True cs else CHR '' '' # collapseSpaces True cs)
      else c # collapseSpaces False cs)"

definition normalizeHex :: "string \<Rightarrow> string" where
  "normalizeHex input =
     toUpperCase (collapseSpaces False (trim
       (map (\<lambda>c. if isHexDigit c then c else CHR '' '') (stripAll0x input))))"

fun splitOn :: "char \<Rightarrow> string \<Rightarrow> string list" where
  "splitOn d [] = [[]]"
| "splitOn d (c # cs) =
     (if c = d then [] # splitOn d cs
      else (case splitOn d cs of t # ts \<Rightarrow> (c # t) # ts | [] \<Rightarrow> [[c]]))"

definition hexDigitValue :: "char \<Rightarrow> int" where
  "hexDigitValue c =
     (case map_of (zip ''0123456789ABCDEF'' [0, 1, 2, 3, 4, 5, 6, 7, 8, 9, 10, 11, 12, 13, 14, 15]) c of
        Some v \<Rightarrow> v | None \<Rightarrow> 0)"

fun parseTokens :: "string list \<Rightarrow> error + int list" where
  "parseTokens [] = Inr []"
| "parseTokens (token # tokens) =
     (if length token \<noteq> 2 then Inl (InvalidHexToken token)
      else (case parseTokens tokens of
              Inl e \<Rightarrow> Inl e
            | Inr bytes \<Rightarrow> Inr ((16 * hexDigitValue (token ! 0) + hexDigitValue (token ! 1)) # bytes)))"

definition parseHexBytes :: "string \<Rightarrow> error + int list" where
  "parseHexBytes input =
     (let normalized = normalizeHex input
      in if normalized = [] then Inr [] else parseTokens (splitOn CHR '' '' normalized))"

definition hexByte :: "int \<Rightarrow> string" where
  "hexByte b = toUpperCase (padStart0 2 (toString16 b))"

fun joinWith :: "string \<Rightarrow> string list \<Rightarrow> string" where
  "joinWith sep [] = []"
| "joinWith sep [x] = x"
| "joinWith sep (x # y # ys) = x @ sep @ joinWith sep (y # ys)"

definition bytesToHex :: "int list \<Rightarrow> string" where
  "bytesToHex bytes = joinWith '' '' (map hexByte bytes)"

section \<open>Frame codec\<close>

text \<open>A read \<open>bytes[i]\<close>: \<open>undefined\<close> outside the array is \<open>None\<close>.\<close>

definition js_nth :: "int list \<Rightarrow> int \<Rightarrow> int option" where
  "js_nth bytes i = (if 0 \<le> i \<and> i < int (length bytes) then Some (bytes ! nat i) else None)"

definition computePdfChecksum :: "int list \<Rightarrow> int" where
  "computePdfChecksum bytes =
     (if length bytes < 10 then 0
      else foldl (\<lambda>sum index. (sum + bytes ! nat index) AND 0xff) 0 [8 .. int (length bytes) - 2])"

definition equalBytes :: "int list \<Rightarrow> int list \<Rightarrow> bool" where
  "equalBytes a b =
     (if length a \<noteq> length b then False
      else list_all (\<lambda>index. a ! index = b ! index) [0 ..< length a])"

definition equalIgnoringChecksum :: "int list \<Rightarrow> int list \<Rightarrow> bool" where
  "equalIgnoringChecksum a b =
     (if length a \<noteq> length b \<or> length a = 0 then False
      else list_all (\<lambda>index. a ! index = b ! index) [0 ..< length a - 1])"


definition js_set :: "int list \<Rightarrow> int \<Rightarrow> int \<Rightarrow> int list option" where
  "js_set bytes i v = (if 0 \<le> i \<and> i < int (length bytes) then Some (bytes[nat i := v]) else None)"

section \<open>Data model\<close>

datatype RunMode = mode_single | mode_suite | mode_sanity | mode_issues
datatype ProfileName = exview_aio | generic
datatype ValidationMode = STRICT_EXACT | STRUCTURE_ONLY | PARSED_RANGE | EXPECTED_NO_REPLY
datatype TransportStatus = T_REPLY | T_NO_REPLY
datatype StatusColor = GREEN | YELLOW | RED | GRAY
datatype ResultStatus = PASS | FAIL | NO_REPLY | SKIPPED
datatype Stage = AUTO | POWER_MANUAL
datatype CaseSource = src_truth | src_generated | src_sanity

record TruthCommandRow =
  row_rowNumber :: int
  row_commandKey :: string
  row_category :: string
  row_description :: string
  row_requestHex :: string
  row_replyHex :: "string option"
  row_setCommandCode :: "string option"
  row_replyCommandCode :: "string option"
  row_instruction :: string
  row_remark :: string
  row_transport :: "string option"
  row_excludedReason :: "string option"

record SuiteExclusionEntry =
  excl_code :: "string option"
  excl_reason :: "string option"

record NumericSpec =
  spec_setCode :: string
  spec_valueIndex :: int
  spec_checksumIndex :: int
  spec_baseRow :: TruthCommandRow
  spec_queryCode :: "string option"
  spec_queryRow :: "TruthCommandRow option"

record CertifyCase =
  case_id :: string
  case_stage :: Stage
  case_source :: CaseSource
  case_category :: string
  case_description :: string
  case_commandKey :: string
  case_setCode :: "string option"
  case_replyCode :: "string option"
  case_txBytes :: "int list"
  case_expectedReplyBytes :: "int list option"
  case_generatedValue :: "int option"
  case_serialOnly :: bool
  case_isSetCommand :: bool
  case_isModeChangeCommand :: bool
  case_isPowerCommand :: bool
  case_isDisruptiveCommand :: bool
  case_closedLoopQueryRow :: "TruthCommandRow option"
  case_expectedQueryValue :: "int option"

section \<open>Static tables\<close>

definition DISRUPTIVE_SET_CODES :: "string list" where
  "DISRUPTIVE_SET_CODES = [''C003'', ''C007'', ''C009'']"

definition NUMERIC_SET_CODES :: "string list" where
  "NUMERIC_SET_CODES = [''C203'', ''C21F'', ''C217'', ''C223'', ''C227'', ''C22B'', ''C259'', ''C262'']"

definition NUMERIC_VALUE_INDEX_BY_SET :: "string \<rightharpoonup> int \<times> int" where
  "NUMERIC_VALUE_INDEX_BY_SET = map_of
     [(''C203'', (38, 39)), (''C21F'', (38, 39)), (''C217'', (38, 39)), (''C223'', (38, 39)),
      (''C227'', (38, 39)), (''C22B'', (38, 39)), (''C259'', (38, 39)), (''C262'', (38, 39))]"

definition CLOSED_LOOP_QUERY_BY_SET :: "string \<rightharpoonup> string" where
  "CLOSED_LOOP_QUERY_BY_SET = map_of
     [(''C203'', ''C201''), (''C21F'', ''C21D''), (''C217'', ''C215''), (''C223'', ''C221''),
      (''C227'', ''C225''), (''C22B'', ''C229''), (''C259'', ''C257''), (''C262'', ''C264''),
      (''C20F'', ''C20D'')]"

definition FORMULA_CHECKSUM_BASE :: "string \<rightharpoonup> int" where
  "FORMULA_CHECKSUM_BASE = map_of [(''C203'', 0x5b), (''C21F'', 0x77)]"

section \<open>Classification of truth rows\<close>

definition isUdpLike :: "int list \<Rightarrow> bool" where
  "isUdpLike bytes =
     (if length bytes < 10 then False
      else list_all (\<lambda>index. bytes ! index = 0x55) [0 ..< 7])"

definition isSetCommand :: "TruthCommandRow \<Rightarrow> bool" where
  "isSetCommand row = startsWith (toLowerCase (row_category row)) ''set ''"

definition isModeChangeCommand :: "TruthCommandRow \<Rightarrow> bool" where
  "isModeChangeCommand row =
     (let text = toLowerCase (row_category row @ '' '' @ row_description row @ '' '' @ row_instruction row)
      in includesStr text ''video source'' \<or> includesStr text ''screen display''
         \<or> includesStr text ''split screen''
         \<or> (includesStr text ''set '' \<and> includesStr text ''mode''))"

definition isPowerCommand :: "TruthCommandRow \<Rightarrow> bool" where
  "isPowerCommand row =
     (case normalizeCode (row_setCommandCode row) of
        None \<Rightarrow> False
      | Some code \<Rightarrow> code \<in> set DISRUPTIVE_SET_CODES)"

definition isDisruptiveCommand :: "TruthCommandRow \<Rightarrow> bool" where
  "isDisruptiveCommand row =
     (let text = toLowerCase (row_category row @ '' '' @ row_description row @ '' '' @ row_remark row)
      in includesStr text ''sleep'' \<or> includesStr text ''standby'' \<or> includesStr text ''restart''
         \<or> includesStr text ''power off'')"

definition orEmpty :: "string option \<Rightarrow> string" where
  "orEmpty s = (case s of Some t \<Rightarrow> t | None \<Rightarrow> [])"

definition isSerialOnly :: "TruthCommandRow \<Rightarrow> int list \<Rightarrow> bool" where
  "isSerialOnly row txBytes =
     (let transport = toUpperCase (orEmpty (row_transport row));
          combined = toLowerCase (row_remark row @ '' '' @ row_instruction row @ '' ''
                       @ orEmpty (row_excludedReason row))
      in if includesStr transport ''SERIAL'' then True
         else if includesStr combined ''serial only'' \<or> includesStr combined ''serial-only'' then True
         else if includesStr combined ''does not support udp'' then True
         else if includesStr combined ''excluded'' \<and> includesStr combined ''serial'' then True
         else if \<not> isUdpLike txBytes then True
         else False)"

section \<open>Numeric command specs\<close>

text \<open>
  The map \<open>bySetCode\<close> of \<open>run\<close> is read through \<open>bySetCode.get(code) ?? []\<close>
  everywhere, so it is modelled as the function from a code to its rows, in file order.
\<close>

definition bySetCodeOf :: "TruthCommandRow list \<Rightarrow> string \<Rightarrow> TruthCommandRow list" where
  "bySetCodeOf rows code = filter (\<lambda>row. normalizeCode (row_setCommandCode row) = Some code) rows"

text \<open>\<open>byKey\<close>: a later row with the same key replaces an earlier one.\<close>

definition byKeyOf :: "TruthCommandRow list \<Rightarrow> string \<rightharpoonup> TruthCommandRow" where
  "byKeyOf rows key = List.find (\<lambda>row. row_commandKey row = key) (rev rows)"

definition firstRow :: "TruthCommandRow list \<Rightarrow> TruthCommandRow option" where
  "firstRow rows = (case rows of [] \<Rightarrow> None | row # _ \<Rightarrow> Some row)"

fun deriveNumericSpecsFrom ::
  "(string \<Rightarrow> TruthCommandRow list) \<Rightarrow> string list \<Rightarrow> (string \<rightharpoonup> NumericSpec)
     \<Rightarrow> error + (string \<rightharpoonup> NumericSpec)" where
  "deriveNumericSpecsFrom bySetCode [] specs = Inr specs"
| "deriveNumericSpecsFrom bySetCode (setCode # codes) specs =
     (case bySetCode setCode of
        [] \<Rightarrow> deriveNumericSpecsFrom bySetCode codes specs
      | baseRow # _ \<Rightarrow>
          (case NUMERIC_VALUE_INDEX_BY_SET setCode of
             None \<Rightarrow> Inl (MissingManualIndex setCode)
           | Some (valueIndex, checksumIndex) \<Rightarrow>
               (case parseHexBytes (row_requestHex baseRow) of
                  Inl e \<Rightarrow> Inl e
                | Inr txBytes \<Rightarrow>
                    if valueIndex \<ge> int (length txBytes) \<or> checksumIndex \<ge> int (length txBytes)
                    then Inl (ManualIndexOutOfBounds setCode)
                    else if checksumIndex \<noteq> int (length txBytes) - 1
                    then Inl (ChecksumIndexNotLast setCode)
                    else deriveNumericSpecsFrom bySetCode codes
                           (specs(setCode \<mapsto>
                              \<lparr> spec_setCode = setCode,
                                spec_valueIndex = valueIndex,
                                spec_checksumIndex = checksumIndex,
                                spec_baseRow = baseRow,
                                spec_queryCode = CLOSED_LOOP_QUERY_BY_SET setCode,
                                spec_queryRow =
                                  (case CLOSED_LOOP_QUERY_BY_SET setCode of
                                     None \<Rightarrow> None
                                   | Some queryCode \<Rightarrow> firstRow (bySetCode queryCode)) \<rparr>)))))"

definition deriveNumericSpecs ::
  "(string \<Rightarrow> TruthCommandRow list) \<Rightarrow> error + (string \<rightharpoonup> NumericSpec)" where
  "deriveNumericSpecs bySetCode = deriveNumericSpecsFrom bySetCode NUMERIC_SET_CODES Map.empty"

section \<open>Case builders\<close>

definition valueLabel :: "string option \<Rightarrow> string" where
  "valueLabel setCode =
     (case normalizeCode setCode of
        None \<Rightarrow> ''value''
      | Some normalized \<Rightarrow>
          if normalized = ''C203'' then ''volume''
          else if normalized = ''C21F'' then ''brightness''
          else if normalized = ''C217'' then ''contrast''
          else if normalized = ''C223'' then ''redGain''
          else if normalized = ''C227'' then ''greenGain''
          else if normalized = ''C22B'' then ''blueGain''
          else if normalized = ''C259'' then ''saturation''
          else if normalized = ''C262'' then ''hue''
          else ''value'')"

text \<open>\<open>hex ? parseHexBytes(hex) : null\<close>: \<open>null\<close> and the empty string are falsy.\<close>

definition parseOptionalHex :: "string option \<Rightarrow> error + int list option" where
  "parseOptionalHex hex =
     (case hex of
        None \<Rightarrow> Inr None
      | Some h \<Rightarrow>
          if h = [] then Inr None
          else (case parseHexBytes h of Inl e \<Rightarrow> Inl e | Inr bytes \<Rightarrow> Inr (Some bytes)))"

text \<open>
  An assignment \<open>txBytes[i] = v\<close> outside the array would leave a sparse array in
  JavaScript; the model stops with \<open>IndexOutsideArray\<close> there. A spec made by
  \<open>deriveNumericSpecs\<close> never reaches it (lemma \<open>derived_spec_indices\<close>).
\<close>

definition buildGeneratedNumericCase :: "NumericSpec \<Rightarrow> int \<Rightarrow> CaseSource \<Rightarrow> error + CertifyCase" where
  "buildGeneratedNumericCase spec v source =
     (case parseHexBytes (row_requestHex (spec_baseRow spec)) of
        Inl e \<Rightarrow> Inl e
      | Inr parsed \<Rightarrow>
          (case js_set parsed (spec_valueIndex spec) (v AND 0xff) of
             None \<Rightarrow> Inl IndexOutsideArray
           | Some withValue \<Rightarrow>
               (case js_set withValue (spec_checksumIndex spec)
                       (case FORMULA_CHECKSUM_BASE (spec_setCode spec) of
                          Some formulaBase \<Rightarrow> (formulaBase + v) AND 0xff
                        | None \<Rightarrow> computePdfChecksum withValue) of
                  None \<Rightarrow> Inl IndexOutsideArray
                | Some txBytes \<Rightarrow>
                    (case parseOptionalHex (row_replyHex (spec_baseRow spec)) of
                       Inl e \<Rightarrow> Inl e
                     | Inr expectedReplyBytes \<Rightarrow>
                         Inr \<lparr> case_id = row_commandKey (spec_baseRow spec) @ '':gen-'' @ showInt v,
                               case_stage = (if spec_setCode spec \<in> set DISRUPTIVE_SET_CODES
                                             then POWER_MANUAL else AUTO),
                               case_source = source,
                               case_category = row_category (spec_baseRow spec),
                               case_description =
                                 valueLabel (toCode (Some (spec_setCode spec))) @ ''='' @ showInt v,
                               case_commandKey = row_commandKey (spec_baseRow spec) @ '':gen-'' @ showInt v,
                               case_setCode = toCode (Some (spec_setCode spec)),
                               case_replyCode = row_replyCommandCode (spec_baseRow spec),
                               case_txBytes = txBytes,
                               case_expectedReplyBytes = expectedReplyBytes,
                               case_generatedValue = Some v,
                               case_serialOnly = False,
                               case_isSetCommand = True,
                               case_isModeChangeCommand = isModeChangeCommand (spec_baseRow spec),
                               case_isPowerCommand = False,
                               case_isDisruptiveCommand = False,
                               case_closedLoopQueryRow = spec_queryRow spec,
                               case_expectedQueryValue = Some v \<rparr>))))"

definition buildCaseFromTruthRow :: "TruthCommandRow \<Rightarrow> CaseSource \<Rightarrow> error + CertifyCase" where
  "buildCaseFromTruthRow row source =
     (case parseHexBytes (row_requestHex row) of
        Inl e \<Rightarrow> Inl e
      | Inr txBytes \<Rightarrow>
          (case parseOptionalHex (row_replyHex row) of
             Inl e \<Rightarrow> Inl e
           | Inr expectedReplyBytes \<Rightarrow>
               Inr \<lparr> case_id = row_commandKey row,
                     case_stage = (if isPowerCommand row then POWER_MANUAL else AUTO),
                     case_source = source,
                     case_category = row_category row,
                     case_description =
                       (if row_description row \<noteq> [] then row_description row
                        else if row_remark row \<noteq> [] then row_remark row
                        else row_commandKey row),
                     case_commandKey = row_commandKey row,
                     case_setCode = row_setCommandCode row,
                     case_replyCode = row_replyCommandCode row,
                     case_txBytes = txBytes,
                     case_expectedReplyBytes = expectedReplyBytes,
                     case_generatedValue = None,
                     case_serialOnly = isSerialOnly row txBytes,
                     case_isSetCommand = isSetCommand row,
                     case_isModeChangeCommand = isModeChangeCommand row,
                     case_isPowerCommand = isPowerCommand row,
                     case_isDisruptiveCommand = isDisruptiveCommand row,
                     case_closedLoopQueryRow = None,
                     case_expectedQueryValue =
                       (if normalizeCode (row_setCommandCode row) = Some ''C20F'' \<and> length txBytes > 38
                        then Some (txBytes ! 38) else None) \<rparr>))"

text \<open>Running a list of fallible steps: the first \<open>throw\<close> ends the loop.\<close>

fun collectE :: "(error + 'a) list \<Rightarrow> error + 'a list" where
  "collectE [] = Inr []"
| "collectE (x # xs) =
     (case x of
        Inl e \<Rightarrow> Inl e
      | Inr a \<Rightarrow> (case collectE xs of Inl e \<Rightarrow> Inl e | Inr as \<Rightarrow> Inr (a # as)))"

text \<open>
  The loop of \<open>buildSuiteCases\<close> over the truth rows, with its two variables
  \<open>cases\<close> and \<open>generatedSetCodes\<close>.
\<close>

fun buildSuiteLoop ::
  "(string \<rightharpoonup> NumericSpec) \<Rightarrow> TruthCommandRow list \<Rightarrow> CertifyCase list \<Rightarrow> string list
     \<Rightarrow> error + CertifyCase list" where
  "buildSuiteLoop numericSpecs [] cases generatedSetCodes = Inr cases"
| "buildSuiteLoop numericSpecs (row # rows) cases generatedSetCodes =
     (case (case normalizeCode (row_setCommandCode row) of
              None \<Rightarrow> None
            | Some setCode \<Rightarrow>
                (case numericSpecs setCode of None \<Rightarrow> None | Some spec \<Rightarrow> Some (setCode, spec))) of
        Some (setCode, spec) \<Rightarrow>
          if setCode \<notin> set generatedSetCodes
          then (case collectE (map (\<lambda>v. buildGeneratedNumericCase spec v src_generated) [0 .. 100]) of
                  Inl e \<Rightarrow> Inl e
                | Inr generatedCases \<Rightarrow>
                    buildSuiteLoop numericSpecs rows (cases @ generatedCases) (setCode # generatedSetCodes))
          else buildSuiteLoop numericSpecs rows cases generatedSetCodes
      | None \<Rightarrow>
          (case buildCaseFromTruthRow row src_truth of
             Inl e \<Rightarrow> Inl e
           | Inr c \<Rightarrow> buildSuiteLoop numericSpecs rows (cases @ [c]) generatedSetCodes))"

definition buildSuiteCases ::
  "TruthCommandRow list \<Rightarrow> (string \<rightharpoonup> NumericSpec) \<Rightarrow> error + CertifyCase list" where
  "buildSuiteCases rows numericSpecs =
     (case buildSuiteLoop numericSpecs rows [] [] of
        Inl e \<Rightarrow> Inl e
      | Inr cases \<Rightarrow>
          Inr (filter (\<lambda>item. \<not> case_isPowerCommand item) cases
               @ filter (\<lambda>item. case_isPowerCommand item) cases))"

section \<open>Decoding a reply\<close>

record PayloadDecode =
  pd_markerIndex :: int
  pd_dataLength :: int
  pd_data :: "int list"
  pd_ambiguous :: bool

record ReplyDecode =
  rd_replyCode :: "string option"
  rd_replyCodeIndex :: "int option"
  rd_payload :: "PayloadDecode option"

record TailCandidate =
  cand_index :: int
  cand_length :: int
  cand_data :: "int list"

text \<open>\<open>bytes.slice(start, end)\<close>, with the clamping of the language.\<close>

definition js_slice :: "int list \<Rightarrow> int \<Rightarrow> int \<Rightarrow> int list" where
  "js_slice bytes start end =
     (let len = int (length bytes);
          k = (if start < 0 then max (len + start) 0 else min start len);
          final = (if end < 0 then max (len + end) 0 else min end len)
      in take (nat (final - k)) (drop (nat k) bytes))"

text \<open>
  The backward scan of \<open>extractTailPayload\<close>. Its state is the array \<open>candidates\<close>
  of the source together with the list of the offsets the scan has read so far, which
  the source does not keep: it is there to state that no read leaves the array.
\<close>

record TailScan =
  scan_candidates :: "TailCandidate list"
  scan_reads :: "int list"

definition scanTailStep :: "int list \<Rightarrow> TailScan \<Rightarrow> int \<Rightarrow> TailScan" where
  "scanTailStep bytes st index =
     (if js_nth bytes index \<noteq> Some 0x00
      then st\<lparr>scan_reads := scan_reads st @ [index]\<rparr>
      else if js_nth bytes (index + 2) \<noteq> Some 0x00
      then st\<lparr>scan_reads := scan_reads st @ [index, index + 2]\<rparr>
      else (case js_nth bytes (index + 1) of
              None \<Rightarrow> st\<lparr>scan_reads := scan_reads st @ [index, index + 2, index + 1]\<rparr>
            | Some len \<Rightarrow>
                (let start = index + 3; checksumIndex = start + len
                 in if checksumIndex \<noteq> int (length bytes) - 1
                    then st\<lparr>scan_reads := scan_reads st @ [index, index + 2, index + 1]\<rparr>
                    else \<lparr> scan_candidates = scan_candidates st @
                             [\<lparr> cand_index = index, cand_length = len,
                                cand_data = js_slice bytes start checksumIndex \<rparr>],
                           scan_reads = scan_reads st @ [index, index + 2, index + 1]
                             @ [start .. checksumIndex - 1] \<rparr>)))"

definition scanTail :: "int list \<Rightarrow> TailScan" where
  "scanTail bytes =
     (let minIndex = max 0 (int (length bytes) - 96)
      in foldl (scanTailStep bytes) \<lparr> scan_candidates = [], scan_reads = [] \<rparr>
           (rev [minIndex .. int (length bytes) - 4]))"

definition extractTailPayloadTraced :: "int list \<Rightarrow> PayloadDecode option \<times> int list" where
  "extractTailPayloadTraced bytes =
     (if length bytes < 6 then (None, [])
      else (let st = scanTail bytes
            in (case scan_candidates st of
                  [] \<Rightarrow> (None, scan_reads st)
                | selected # _ \<Rightarrow>
                    (Some \<lparr> pd_markerIndex = cand_index selected,
                            pd_dataLength = cand_length selected,
                            pd_data = cand_data selected,
                            pd_ambiguous = (length (scan_candidates st) > 1) \<rparr>,
                     scan_reads st))))"

definition extractTailPayload :: "int list \<Rightarrow> PayloadDecode option" where
  "extractTailPayload bytes = fst (extractTailPayloadTraced bytes)"

definition decodeReplyCode :: "int list \<Rightarrow> string option \<times> int option" where
  "decodeReplyCode bytes =
     (let maxScan = min (int (length bytes) - 3) 40
      in (case List.find (\<lambda>index. js_nth bytes index = Some 0xd0) [8 .. maxScan] of
            None \<Rightarrow> (None, None)
          | Some index \<Rightarrow>
              (let low = bytes ! nat (index + 1); high = bytes ! nat (index + 2)
               in (Some (toUpperCase (padStart0 2 (toString16 high) @ padStart0 2 (toString16 low))),
                   Some index))))"

definition decodeReply :: "int list \<Rightarrow> ReplyDecode" where
  "decodeReply bytes =
     \<lparr> rd_replyCode = fst (decodeReplyCode bytes),
       rd_replyCodeIndex = snd (decodeReplyCode bytes),
       rd_payload = extractTailPayload bytes \<rparr>"

definition parseAckStatus :: "ReplyDecode option \<Rightarrow> int option" where
  "parseAckStatus decoded =
     (case decoded of
        None \<Rightarrow> None
      | Some d \<Rightarrow>
          (case rd_payload d of
             None \<Rightarrow> None
           | Some payload \<Rightarrow>
               if length (pd_data payload) < 2 then None
               else Some (pd_data payload ! 0 OR push_bit 8 (pd_data payload ! 1))))"

section \<open>Semantic parsers\<close>

text \<open>
  A parser result keeps \<open>ok\<close>, the structured value \<open>parsed\<close> (an object of the
  source, here a list of fields) and the numeric \<open>value\<close>. The texts \<open>meaning\<close> and
  \<open>note\<close> are for the report only and are left out.
\<close>

datatype pval = PNum int | PStr string | PNums "int list" | PStrs "string list"

record ParseResult =
  pr_ok :: bool
  pr_parsed :: "(string \<times> pval) list option"
  pr_value :: "int option"

definition VIDEO_SOURCE_ENUM :: "int \<rightharpoonup> string" where
  "VIDEO_SOURCE_ENUM = map_of
     [(0, ''Android''), (1, ''Windows''), (2, ''HDMI1''), (3, ''HDMI2''), (4, ''HDMI3''), (6, ''HDMI4'')]"

definition SCENE_MODE_ENUM :: "int \<rightharpoonup> string" where
  "SCENE_MODE_ENUM = map_of
     [(0, ''Meeting''), (1, ''Standard''), (2, ''Soft''), (3, ''Custom''), (5, ''Cinema'')]"

definition DISPLAY_MODE_ENUM :: "int \<rightharpoonup> string" where
  "DISPLAY_MODE_ENUM = map_of
     [(1, ''4:3''), (2, ''16:9''), (3, ''Full''), (4, ''Original''), (7, ''1:1'')]"

definition COLOR_TEMP_ENUM :: "int \<rightharpoonup> string" where
  "COLOR_TEMP_ENUM = map_of [(1, ''Standard''), (2, ''Warm''), (3, ''Cool''), (4, ''User'')]"

definition TRUE_STANDBY_ENUM :: "int \<rightharpoonup> string" where
  "TRUE_STANDBY_ENUM = map_of [(0, ''TrueStandby''), (1, ''NormalOperation'')]"

definition failedParse :: "(string \<times> pval) list option \<Rightarrow> ParseResult" where
  "failedParse parsed = \<lparr> pr_ok = False, pr_parsed = parsed, pr_value = None \<rparr>"

definition parseRangeValue :: "string \<Rightarrow> int list \<Rightarrow> int \<Rightarrow> int \<Rightarrow> ParseResult" where
  "parseRangeValue label dat lo hi =
     (if length dat < 1 then failedParse None
      else (let v = dat ! 0
            in \<lparr> pr_ok = (v \<ge> lo \<and> v \<le> hi), pr_parsed = Some [(label, PNum v)], pr_value = Some v \<rparr>))"

definition parseEnumValue :: "string \<Rightarrow> int list \<Rightarrow> (int \<rightharpoonup> string) \<Rightarrow> ParseResult" where
  "parseEnumValue label dat table =
     (if length dat < 1 then failedParse None
      else (let v = (if length dat \<ge> 2 \<and> dat ! 0 = 0x00 \<and> dat ! 1 \<noteq> 0x00 then dat ! 1 else dat ! 0)
            in (case table v of
                  None \<Rightarrow> \<lparr> pr_ok = False, pr_parsed = Some [(label, PNum v)], pr_value = Some v \<rparr>
                | Some text \<Rightarrow>
                    \<lparr> pr_ok = True,
                      pr_parsed = Some [(label, PNum v), (label @ ''Text'', PStr text)],
                      pr_value = Some v \<rparr>)))"

text \<open>\<open>xs.reduce((best, item) => item.index > best.index ? item : best)\<close> on a non-empty array.\<close>

definition lastByIndex :: "TailCandidate \<Rightarrow> TailCandidate list \<Rightarrow> TailCandidate" where
  "lastByIndex first rest =
     foldl (\<lambda>best item. if cand_index item > cand_index best then item else best) first rest"

definition hdmiMatchAt :: "int list \<Rightarrow> int \<Rightarrow> TailCandidate option" where
  "hdmiMatchAt bytes index =
     (let len = push_bit 8 (bytes ! nat index) OR bytes ! nat (index + 1)
      in if bytes ! nat (index + 2) \<noteq> 0x00 then None
         else (let payloadStart = index + 3; payloadEnd = payloadStart + len
               in if payloadEnd \<noteq> int (length bytes) - 1 then None
                  else Some \<lparr> cand_index = index, cand_length = len,
                              cand_data = js_slice bytes payloadStart payloadEnd \<rparr>))"

definition parseHdmiPresenceFromFrame :: "int list \<Rightarrow> ParseResult" where
  "parseHdmiPresenceFromFrame bytes =
     (let matches = List.map_filter (hdmiMatchAt bytes) [0 .. int (length bytes) - 4]
      in if matches = [] then failedParse (Some [(''raw'', PStr (bytesToHex bytes))])
         else (let len4Matches = filter (\<lambda>item. cand_length item = 4) matches;
                   pool = (if len4Matches \<noteq> [] then len4Matches else matches);
                   selected = lastByIndex (hd pool) (tl pool)
               in if cand_length selected \<noteq> 4
                  then failedParse (Some [(''tailLength'', PNum (cand_length selected)),
                                          (''payload'', PNums (cand_data selected))])
                  else (let flags = cand_data selected
                        in if list_ex (\<lambda>item. item \<noteq> 0 \<and> item \<noteq> 1) flags
                           then failedParse (Some [(''payload'', PNums flags)])
                           else \<lparr> pr_ok = True,
                                  pr_parsed = Some
                                    [(''hdmi1'', PNum (flags ! 0)), (''hdmi2'', PNum (flags ! 1)),
                                     (''hdmi3'', PNum (flags ! 2)), (''hdmi4'', PNum (flags ! 3)),
                                     (''payloadHex'', PStr (bytesToHex flags)),
                                     (''activeInputs'', PStrs
                                        (map fst (filter (\<lambda>(name, index). flags ! index = 1)
                                           (zip [''HDMI1'', ''HDMI2'', ''HDMI3'', ''HDMI4''] [0 ..< 4]))))],
                                  pr_value = None \<rparr>)))"

definition enumText :: "(int \<rightharpoonup> string) \<Rightarrow> int \<Rightarrow> string" where
  "enumText table v = (case table v of Some text \<Rightarrow> text | None \<Rightarrow> ''unknown'')"

definition parseSemanticByCode :: "string \<Rightarrow> int list \<Rightarrow> ParseResult" where
  "parseSemanticByCode parserCode dat =
     (if parserCode = ''C201'' then
        (if length dat \<noteq> 1 then failedParse (Some [(''raw'', PNums dat)])
         else parseRangeValue ''volume'' dat 0 100)
      else if parserCode = ''C215'' then
        (if length dat \<noteq> 1 then failedParse (Some [(''raw'', PNums dat)])
         else parseRangeValue ''contrast'' dat 0 100)
      else if parserCode = ''C221'' then
        (if length dat \<noteq> 1 then failedParse (Some [(''raw'', PNums dat)])
         else parseRangeValue ''redGain'' dat 0 100)
      else if parserCode = ''C211'' then
        (if length dat \<noteq> 1 then failedParse (Some [(''raw'', PNums dat)])
         else parseEnumValue ''videoSource'' dat VIDEO_SOURCE_ENUM)
      else if parserCode = ''C243'' then
        (if length dat \<noteq> 1 then failedParse (Some [(''raw'', PNums dat)])
         else parseEnumValue ''sceneMode'' dat SCENE_MODE_ENUM)
      else if parserCode = ''C20D'' then parseEnumValue ''displayMode'' dat DISPLAY_MODE_ENUM
      else if parserCode = ''C020'' then parseEnumValue ''trueStandby'' dat TRUE_STANDBY_ENUM
      else if parserCode = ''C005'' then
        (if length dat \<noteq> 1 then failedParse None
         else (let flag = dat ! 0
               in if flag = 0x80
                  then \<lparr> pr_ok = True,
                         pr_parsed = Some [(''sleepWakeFlag'', PNum flag), (''state'', PStr ''Awake'')],
                         pr_value = Some flag \<rparr>
                  else if flag = 0x00
                  then \<lparr> pr_ok = True,
                         pr_parsed = Some [(''sleepWakeFlag'', PNum flag), (''state'', PStr ''Blackout'')],
                         pr_value = Some flag \<rparr>
                  else \<lparr> pr_ok = False, pr_parsed = Some [(''sleepWakeFlag'', PNum flag)],
                         pr_value = Some flag \<rparr>))
      else if parserCode = ''C25B'' then
        (if length dat \<noteq> 4 then failedParse (Some [(''raw'', PNums dat)])
         else (let flags = js_slice dat 0 4
               in if list_ex (\<lambda>item. item \<noteq> 0 \<and> item \<noteq> 1) flags
                  then failedParse (Some [(''raw'', PNums flags)])
                  else \<lparr> pr_ok = True,
                         pr_parsed = Some
                           [(''hdmi1'', PNum (flags ! 0)), (''hdmi2'', PNum (flags ! 1)),
                            (''hdmi3'', PNum (flags ! 2)), (''hdmi4'', PNum (flags ! 3))],
                         pr_value = None \<rparr>))
      else if parserCode = ''C241'' then
        (if length dat \<noteq> 7 then failedParse (Some [(''raw'', PNums dat)])
         else (let brightness = dat ! 0; colorTemp = dat ! 1; displayMode = dat ! 2;
                   videoSource = dat ! 3; volume = dat ! 4; contrast = dat ! 5; sceneMode = dat ! 6;
                   errors =
                     (if brightness < 0 \<or> brightness > 100 then [''brightness out of range''] else [])
                     @ (if COLOR_TEMP_ENUM colorTemp = None then [''colorTemp invalid''] else [])
                     @ (if DISPLAY_MODE_ENUM displayMode = None then [''displayMode invalid''] else [])
                     @ (if VIDEO_SOURCE_ENUM videoSource = None then [''videoSource invalid''] else [])
                     @ (if volume < 0 \<or> volume > 100 then [''volume out of range''] else [])
                     @ (if contrast < 0 \<or> contrast > 100 then [''contrast out of range''] else [])
                     @ (if SCENE_MODE_ENUM sceneMode = None then [''sceneMode invalid''] else [])
               in \<lparr> pr_ok = (length errors = 0),
                     pr_parsed = Some
                       [(''brightness'', PNum brightness),
                        (''colorTemp'', PNum colorTemp),
                        (''colorTempText'', PStr (enumText COLOR_TEMP_ENUM colorTemp)),
                        (''displayMode'', PNum displayMode),
                        (''displayModeText'', PStr (enumText DISPLAY_MODE_ENUM displayMode)),
                        (''videoSource'', PNum videoSource),
                        (''videoSourceText'', PStr (enumText VIDEO_SOURCE_ENUM videoSource)),
                        (''volume'', PNum volume),
                        (''contrast'', PNum contrast),
                        (''sceneMode'', PNum sceneMode),
                        (''sceneModeText'', PStr (enumText SCENE_MODE_ENUM sceneMode))],
                     pr_value = None \<rparr>))
      else if parserCode = ''C131'' then
        (if length dat < 6 then failedParse None
         else (let status = dat ! 0 OR push_bit 8 (dat ! 1);
                   dataSource = dat ! 2;
                   numPorts = dat ! 3;
                   totalCabinets = dat ! 4 OR push_bit 8 (dat ! 5);
                   requiredLength = 6 + numPorts + totalCabinets * 6;
                   okStatus = (status = 0x0001 \<or> status = 0x0002);
                   plausibleCounts = (numPorts \<le> 64 \<and> totalCabinets \<le> 4096)
               in \<lparr> pr_ok = (okStatus \<and> plausibleCounts),
                     pr_parsed = Some
                       [(''status'', PNum status), (''dataSource'', PNum dataSource),
                        (''numPorts'', PNum numPorts), (''totalCabinets'', PNum totalCabinets),
                        (''requiredLength'', PNum requiredLength),
                        (''payloadLength'', PNum (int (length dat))),
                        (''perPortCounts'', PNums (js_slice dat 6 (6 + numPorts)))],
                     pr_value = None \<rparr>))
      else if parserCode = ''C33D'' then
        (if length dat \<noteq> 4 then failedParse (Some [(''raw'', PNums dat)])
         else (let minutes = take_bit 32 (dat ! 0 OR push_bit 8 (dat ! 1) OR push_bit 16 (dat ! 2)
                                           OR push_bit 24 (dat ! 3))
               in \<lparr> pr_ok = True, pr_parsed = Some [(''minutes'', PNum minutes)],
                     pr_value = Some minutes \<rparr>))
      else failedParse None)"

section \<open>Policy resolver\<close>

record CommandPolicy =
  cp_validationMode :: ValidationMode
  cp_parserCode :: "string option"
  cp_note :: "string option"
  cp_acceptAnyReplyCode :: "bool option"
  cp_allowNoReplyQuirk :: "bool option"
  cp_allowedReplyCodes :: "string list option"

record ResolvedPolicy =
  pol_validationMode :: ValidationMode
  pol_parserCode :: "string option"
  pol_note :: "string option"
  pol_acceptAnyReplyCode :: bool
  pol_allowNoReplyQuirk :: bool
  pol_allowedReplyCodes :: "string list"

text \<open>A table entry that gives a validation mode and a parser and nothing else.\<close>

definition policyEntry :: "ValidationMode \<Rightarrow> string \<Rightarrow> CommandPolicy" where
  "policyEntry validationMode parserCode =
     \<lparr> cp_validationMode = validationMode, cp_parserCode = Some parserCode, cp_note = None,
       cp_acceptAnyReplyCode = None, cp_allowNoReplyQuirk = None, cp_allowedReplyCodes = None \<rparr>"

definition COMMAND_POLICY_BY_CODE :: "string \<rightharpoonup> CommandPolicy" where
  "COMMAND_POLICY_BY_CODE = map_of
     [(''C201'', policyEntry PARSED_RANGE ''C201''),
      (''C215'', policyEntry PARSED_RANGE ''C215''),
      (''C221'', policyEntry PARSED_RANGE ''C221''),
      (''C211'', policyEntry PARSED_RANGE ''C211''),
      (''C225'', policyEntry PARSED_RANGE ''C221''),
      (''C229'', policyEntry PARSED_RANGE ''C221''),
      (''C21D'', policyEntry PARSED_RANGE ''C201''),
      (''C257'', policyEntry PARSED_RANGE ''C201''),
      (''C264'', policyEntry PARSED_RANGE ''C201''),
      (''C243'', policyEntry PARSED_RANGE ''C243''),
      (''C25B'', policyEntry PARSED_RANGE ''C25B''),
      (''C241'', policyEntry PARSED_RANGE ''C241''),
      (''C131'', (policyEntry STRUCTURE_ONLY ''C131'')
                   \<lparr> cp_acceptAnyReplyCode := Some True, cp_allowedReplyCodes := Some [''C332''] \<rparr>),
      (''C33D'', policyEntry PARSED_RANGE ''C33D''),
      (''C005'', (policyEntry EXPECTED_NO_REPLY ''C005'')
                   \<lparr> cp_allowNoReplyQuirk := Some True,
                     cp_note := Some ''Known device quirk around standby/wake transitions; no reply can be expected.'' \<rparr>)]"

definition resolvePolicy :: "CertifyCase \<Rightarrow> ProfileName \<Rightarrow> ResolvedPolicy" where
  "resolvePolicy caseItem profile =
     (let setCode = normalizeCode (case_setCode caseItem);
          base = (case setCode of None \<Rightarrow> None | Some c \<Rightarrow> COMMAND_POLICY_BY_CODE c);
          text = toLowerCase (case_category caseItem @ '' '' @ case_description caseItem);
          heuristic = (base = None \<and> includesStr text ''query scene mode'')
      in \<lparr> pol_validationMode =
             (if heuristic then PARSED_RANGE
              else (case base of Some b \<Rightarrow> cp_validationMode b | None \<Rightarrow> STRICT_EXACT)),
           pol_parserCode =
             (if heuristic then Some ''C243''
              else (case (case base of Some b \<Rightarrow> cp_parserCode b | None \<Rightarrow> None) of
                      Some parserCode \<Rightarrow> Some parserCode
                    | None \<Rightarrow> setCode)),
           pol_note = (case base of Some b \<Rightarrow> cp_note b | None \<Rightarrow> None),
           pol_acceptAnyReplyCode =
             (case (case base of Some b \<Rightarrow> cp_acceptAnyReplyCode b | None \<Rightarrow> None) of
                Some flag \<Rightarrow> flag | None \<Rightarrow> False),
           pol_allowNoReplyQuirk =
             (case (case base of Some b \<Rightarrow> cp_allowNoReplyQuirk b | None \<Rightarrow> None) of
                Some flag \<Rightarrow> flag | None \<Rightarrow> False),
           pol_allowedReplyCodes =
             (case (case base of Some b \<Rightarrow> cp_allowedReplyCodes b | None \<Rightarrow> None) of
                Some codes \<Rightarrow> codes | None \<Rightarrow> []) \<rparr>)"

text \<open>The set \<open>accepted\<close> of \<open>isReplyCodeAccepted\<close>, as the list of its members.\<close>

definition acceptedReplyCodes :: "string option \<Rightarrow> string list \<Rightarrow> string list" where
  "acceptedReplyCodes expected allowed =
     (case normalizeCode expected of Some n \<Rightarrow> [n] | None \<Rightarrow> [])
     @ List.map_filter (\<lambda>item. normalizeCode (Some item)) allowed"

definition isReplyCodeAccepted :: "string option \<Rightarrow> string option \<Rightarrow> string list \<Rightarrow> bool" where
  "isReplyCodeAccepted expected actualNormalized allowed =
     (let accepted = acceptedReplyCodes expected allowed
      in if accepted = [] then True
         else (case actualNormalized of
                 None \<Rightarrow> False
               | Some actual \<Rightarrow> if actual = [] then False else actual \<in> set accepted))"

section \<open>Result records\<close>

text \<open>
  The record of one case. The clock fields (\<open>time\<close>, \<open>latencyMs\<close>), the report texts
  (\<open>meaning\<close>, \<open>note\<close>, \<open>notes\<close>) and the closed-loop query fields, which this engine
  always leaves \<open>null\<close>, are not modelled: no branch of the engine reads them.
\<close>

record CertifyRecord =
  rec_stage :: Stage
  rec_source :: CaseSource
  rec_category :: string
  rec_command :: string
  rec_variant :: string
  rec_commandKey :: string
  rec_setCode :: "string option"
  rec_replyCode :: "string option"
  rec_txHex :: "string option"
  rec_rxHex :: "string option"
  rec_expectedHex :: "string option"
  rec_transportStatus :: TransportStatus
  rec_status :: ResultStatus
  rec_statusColor :: StatusColor
  rec_validationMode :: ValidationMode
  rec_matchType :: string
  rec_parsed :: "(string \<times> pval) list option"
  rec_skipReason :: "string option"
  rec_value :: "int option"
  rec_expectedValue :: "int option"

definition statusColorFromStatus :: "ResultStatus \<Rightarrow> StatusColor" where
  "statusColorFromStatus status =
     (if status = PASS then GREEN else if status = SKIPPED then GRAY else RED)"

definition commandOf :: "CertifyCase \<Rightarrow> string" where
  "commandOf caseItem = (case case_setCode caseItem of Some c \<Rightarrow> c | None \<Rightarrow> case_commandKey caseItem)"

definition buildSkippedRecord :: "CertifyCase \<Rightarrow> string \<Rightarrow> CertifyRecord" where
  "buildSkippedRecord caseItem reason =
     \<lparr> rec_stage = case_stage caseItem,
       rec_source = case_source caseItem,
       rec_category = case_category caseItem,
       rec_command = commandOf caseItem,
       rec_variant = case_description caseItem,
       rec_commandKey = case_commandKey caseItem,
       rec_setCode = case_setCode caseItem,
       rec_replyCode = case_replyCode caseItem,
       rec_txHex = (if length (case_txBytes caseItem) > 0 then Some (bytesToHex (case_txBytes caseItem))
                    else None),
       rec_rxHex = None,
       rec_expectedHex = map_option bytesToHex (case_expectedReplyBytes caseItem),
       rec_transportStatus = T_NO_REPLY,
       rec_status = SKIPPED,
       rec_statusColor = statusColorFromStatus SKIPPED,
       rec_validationMode = STRICT_EXACT,
       rec_matchType = ''SKIPPED'',
       rec_parsed = None,
       rec_skipReason = Some reason,
       rec_value = case_generatedValue caseItem,
       rec_expectedValue = case_expectedQueryValue caseItem \<rparr>"

definition inferExpectedQueryValue :: "CertifyCase \<Rightarrow> int option" where
  "inferExpectedQueryValue caseItem =
     (case case_expectedQueryValue caseItem of
        Some v \<Rightarrow> Some v
      | None \<Rightarrow>
          (case case_generatedValue caseItem of
             Some v \<Rightarrow> Some v
           | None \<Rightarrow>
               (case normalizeCode (case_setCode caseItem) of
                  None \<Rightarrow> None
                | Some setCode \<Rightarrow>
                    (case (case NUMERIC_VALUE_INDEX_BY_SET setCode of
                             Some (valueIndex, _) \<Rightarrow> js_nth (case_txBytes caseItem) valueIndex
                           | None \<Rightarrow> None) of
                       Some v \<Rightarrow> Some v
                     | None \<Rightarrow>
                         if setCode = ''C20F'' \<and> length (case_txBytes caseItem) > 38
                         then Some (case_txBytes caseItem ! 38) else None))))"

definition makeBaseRecord :: "CertifyCase \<Rightarrow> ResolvedPolicy \<Rightarrow> int list option \<Rightarrow> CertifyRecord" where
  "makeBaseRecord caseItem policy rxBytes =
     \<lparr> rec_stage = case_stage caseItem,
       rec_source = case_source caseItem,
       rec_category = case_category caseItem,
       rec_command = commandOf caseItem,
       rec_variant = case_description caseItem,
       rec_commandKey = case_commandKey caseItem,
       rec_setCode = case_setCode caseItem,
       rec_replyCode = case_replyCode caseItem,
       rec_txHex = Some (bytesToHex (case_txBytes caseItem)),
       rec_rxHex = map_option bytesToHex rxBytes,
       rec_expectedHex = map_option bytesToHex (case_expectedReplyBytes caseItem),
       rec_transportStatus = (case rxBytes of Some _ \<Rightarrow> T_REPLY | None \<Rightarrow> T_NO_REPLY),
       rec_status = FAIL,
       rec_statusColor = RED,
       rec_validationMode = pol_validationMode policy,
       rec_matchType = ''UNSET'',
       rec_parsed = None,
       rec_skipReason = None,
       rec_value = case_generatedValue caseItem,
       rec_expectedValue = inferExpectedQueryValue caseItem \<rparr>"

definition setOutcome :: "CertifyRecord \<Rightarrow> ResultStatus \<Rightarrow> string \<Rightarrow> CertifyRecord" where
  "setOutcome record status matchType =
     record\<lparr> rec_status := status, rec_statusColor := statusColorFromStatus status,
             rec_matchType := matchType \<rparr>"

definition modeName :: "ValidationMode \<Rightarrow> string" where
  "modeName m =
     (case m of STRICT_EXACT \<Rightarrow> ''STRICT_EXACT'' | STRUCTURE_ONLY \<Rightarrow> ''STRUCTURE_ONLY''
      | PARSED_RANGE \<Rightarrow> ''PARSED_RANGE'' | EXPECTED_NO_REPLY \<Rightarrow> ''EXPECTED_NO_REPLY'')"

section \<open>Executing one case\<close>

record CliOptions =
  opt_mode :: RunMode
  opt_profile :: ProfileName
  opt_singleSelector :: "string option"
  opt_value :: "int option"
  opt_includePower :: bool

text \<open>
  The end of \<open>executeCase\<close>, once a semantic parser has run: the parsed value goes into
  the record and \<open>ok\<close> decides between pass and fail.
\<close>

definition finishParsed :: "CertifyCase \<Rightarrow> ResolvedPolicy \<Rightarrow> CertifyRecord \<Rightarrow> ParseResult \<Rightarrow> CertifyRecord" where
  "finishParsed caseItem policy record parsed =
     (let withParsed = record\<lparr> rec_parsed := pr_parsed parsed \<rparr>;
          withValue = (if pr_value parsed \<noteq> None \<and> case_generatedValue caseItem = None
                       then withParsed\<lparr> rec_value := pr_value parsed \<rparr> else withParsed)
      in if pr_ok parsed then setOutcome withValue PASS (modeName (pol_validationMode policy))
         else setOutcome withValue FAIL ''SEMANTIC_PARSE_FAIL'')"

text \<open>
  \<open>executeCase\<close> from the line after \<open>await sendAndAwaitReply(...)\<close>: the classification
  of what came back (\<open>None\<close>: the timeout fired first).
\<close>

definition classifyReply :: "CertifyCase \<Rightarrow> CliOptions \<Rightarrow> int list option \<Rightarrow> CertifyRecord" where
  "classifyReply caseItem options rxBytes =
     (let policy = resolvePolicy caseItem (opt_profile options);
          decoded = map_option decodeReply rxBytes;
          payload = (case decoded of Some d \<Rightarrow> rd_payload d | None \<Rightarrow> None);
          replyCode = (case decoded of Some d \<Rightarrow> rd_replyCode d | None \<Rightarrow> None);
          parserCode = (case pol_parserCode policy of
                          Some p \<Rightarrow> if p = [] then None else Some p | None \<Rightarrow> None);
          record = makeBaseRecord caseItem policy rxBytes
      in if pol_validationMode policy = EXPECTED_NO_REPLY then
           (case rxBytes of
              None \<Rightarrow> setOutcome record PASS ''EXPECTED_NO_REPLY''
            | Some rx \<Rightarrow>
                (case (payload, parserCode) of
                   (Some pl, Some pc) \<Rightarrow>
                     setOutcome (record\<lparr> rec_parsed := pr_parsed (parseSemanticByCode pc (pd_data pl)) \<rparr>)
                       PASS ''EXPECTED_NO_REPLY_WITH_REPLY''
                 | _ \<Rightarrow> setOutcome record PASS ''EXPECTED_NO_REPLY_WITH_REPLY''))
         else
           (case rxBytes of
              None \<Rightarrow>
                if opt_profile options = exview_aio \<and> normalizeCode (case_setCode caseItem) = Some ''C211''
                then setOutcome
                       (record\<lparr> rec_skipReason := Some ''No reply in split-screen mode (FW limitation)'' \<rparr>)
                       SKIPPED ''SKIPPED''
                else if pol_allowNoReplyQuirk policy then setOutcome record NO_REPLY ''NO_REPLY_QUIRK''
                else setOutcome record NO_REPLY ''NO_REPLY''
            | Some rx \<Rightarrow>
                if \<not> pol_acceptAnyReplyCode policy
                   \<and> \<not> isReplyCodeAccepted (case_replyCode caseItem) replyCode (pol_allowedReplyCodes policy)
                then setOutcome record FAIL ''REPLY_CODE_MISMATCH''
                else if pol_validationMode policy = STRICT_EXACT then
                  (if (case case_expectedReplyBytes caseItem of
                         Some expected \<Rightarrow> equalBytes expected rx | None \<Rightarrow> False)
                   then setOutcome record PASS ''EXACT''
                   else if (case case_expectedReplyBytes caseItem of
                              Some expected \<Rightarrow> equalIgnoringChecksum expected rx | None \<Rightarrow> False)
                   then setOutcome record PASS ''CHECKSUM_DIFF''
                   else if parseAckStatus decoded = Some 0x0001
                   then setOutcome record PASS ''ACK_SUCCESS''
                   else if case_expectedReplyBytes caseItem = None
                   then setOutcome record PASS ''RX_WITHOUT_TEMPLATE''
                   else setOutcome record FAIL ''MISMATCH'')
                else
                  (case parserCode of
                     None \<Rightarrow> setOutcome record FAIL ''PARSER_NOT_CONFIGURED''
                   | Some pc \<Rightarrow>
                       if pc = ''C25B''
                       then finishParsed caseItem policy record (parseHdmiPresenceFromFrame rx)
                       else (case payload of
                               None \<Rightarrow> setOutcome record FAIL ''PAYLOAD_NOT_FOUND''
                             | Some pl \<Rightarrow>
                                 finishParsed caseItem policy record
                                   (parseSemanticByCode pc (pd_data pl))))))"

text \<open>
  The network. What comes back for a datagram is not decided by the engine: the
  \<open>n\<close>-th datagram sent, with its bytes, is answered by a reply from the target, by the
  timeout, or the send itself fails.
\<close>

datatype NetEvent = Reply "int list" | Timeout | SendError

type_synonym Network = "nat \<Rightarrow> int list \<Rightarrow> NetEvent"

record RunState =
  run_records :: "CertifyRecord list"
  run_transmitted :: "int list list"
  run_failure :: "error option"

definition executeCase :: "Network \<Rightarrow> CertifyCase \<Rightarrow> CliOptions \<Rightarrow> RunState \<Rightarrow> RunState" where
  "executeCase net caseItem options st =
     (let sent = run_transmitted st @ [case_txBytes caseItem]
      in (case net (length (run_transmitted st)) (case_txBytes caseItem) of
            SendError \<Rightarrow> st\<lparr> run_transmitted := sent, run_failure := Some SendFailed \<rparr>
          | Timeout \<Rightarrow>
              st\<lparr> run_transmitted := sent,
                  run_records := run_records st @ [classifyReply caseItem options None] \<rparr>
          | Reply rx \<Rightarrow>
              st\<lparr> run_transmitted := sent,
                  run_records := run_records st @ [classifyReply caseItem options (Some rx)] \<rparr>))"

section \<open>Suite exclusions\<close>

text \<open>
  \<open>loadSuiteExclusions\<close>, from the parsed \<open>excludeFromSuite\<close> list of the profile's
  file (\<open>None\<close>: no file, or no list in it). The profile \<open>generic\<close> has no file.
\<close>

definition addExclusion :: "(string \<rightharpoonup> string) \<Rightarrow> SuiteExclusionEntry \<Rightarrow> (string \<rightharpoonup> string)" where
  "addExclusion exclusions item =
     (case normalizeCode (excl_code item) of
        None \<Rightarrow> exclusions
      | Some code \<Rightarrow>
          (let reason = trim (orEmpty (excl_reason item))
           in if reason = [] then exclusions else exclusions(code \<mapsto> reason)))"

definition loadSuiteExclusions ::
  "ProfileName \<Rightarrow> SuiteExclusionEntry list option \<Rightarrow> (string \<rightharpoonup> string)" where
  "loadSuiteExclusions profile file =
     (if profile = generic then Map.empty
      else (case file of None \<Rightarrow> Map.empty | Some items \<Rightarrow> foldl addExclusion Map.empty items))"

section \<open>The run loop\<close>

text \<open>
  One turn of the \<open>for\<close> loop of \<open>run\<close> over the cases. The delays between cases and
  the operator prompts change no data and are left out.
\<close>

definition runCase ::
  "Network \<Rightarrow> CliOptions \<Rightarrow> (string \<rightharpoonup> string) \<Rightarrow> RunState \<Rightarrow> CertifyCase \<Rightarrow> RunState" where
  "runCase net options suiteExclusions st caseItem =
     (if case_isPowerCommand caseItem \<and> (opt_mode options = mode_suite \<or> opt_mode options = mode_issues)
         \<and> \<not> opt_includePower options
      then st\<lparr> run_records := run_records st
                 @ [buildSkippedRecord caseItem ''Power stage excluded (add --include-power)''] \<rparr>
      else if case_serialOnly caseItem
      then st\<lparr> run_records := run_records st
                 @ [buildSkippedRecord caseItem ''Serial-only or non-UDP request frame''] \<rparr>
      else (case (if opt_mode options = mode_suite
                  then (case normalizeCode (case_setCode caseItem) of
                          None \<Rightarrow> None
                        | Some setCode \<Rightarrow>
                            (case suiteExclusions setCode of
                               None \<Rightarrow> None
                             | Some reason \<Rightarrow> if reason = [] then None else Some reason))
                  else None) of
              Some exclusionReason \<Rightarrow>
                st\<lparr> run_records := run_records st @ [buildSkippedRecord caseItem exclusionReason] \<rparr>
            | None \<Rightarrow> executeCase net caseItem options st))"

text \<open>A failed send leaves the loop: the cases after it are not run.\<close>

fun runLoop ::
  "Network \<Rightarrow> CliOptions \<Rightarrow> (string \<rightharpoonup> string) \<Rightarrow> RunState \<Rightarrow> CertifyCase list \<Rightarrow> RunState" where
  "runLoop net options suiteExclusions st [] = st"
| "runLoop net options suiteExclusions st (caseItem # rest) =
     (let st' = runCase net options suiteExclusions st caseItem
      in if run_failure st' \<noteq> None then st'
         else runLoop net options suiteExclusions st' rest)"

section \<open>Single, sanity and issues selection\<close>

definition buildSingleCase ::
  "(string \<rightharpoonup> TruthCommandRow) \<Rightarrow> (string \<Rightarrow> TruthCommandRow list) \<Rightarrow> (string \<rightharpoonup> NumericSpec)
     \<Rightarrow> string \<Rightarrow> int option \<Rightarrow> error + CertifyCase" where
  "buildSingleCase byKey bySetCode numericSpecs selector v =
     (case byKey selector of
        Some rowByKey \<Rightarrow>
          (case (case normalizeCode (row_setCommandCode rowByKey) of
                   None \<Rightarrow> None | Some setCode \<Rightarrow> numericSpecs setCode) of
             Some spec \<Rightarrow>
               (case v of
                  Some n \<Rightarrow> buildGeneratedNumericCase spec n src_generated
                | None \<Rightarrow> buildCaseFromTruthRow rowByKey src_truth)
           | None \<Rightarrow> buildCaseFromTruthRow rowByKey src_truth)
      | None \<Rightarrow>
          (case normalizeCode (Some selector) of
             None \<Rightarrow> Inl (UnknownSelector selector)
           | Some normalizedCode \<Rightarrow>
               (case bySetCode normalizedCode of
                  [] \<Rightarrow> Inl (NoCommandForSetCode selector)
                | first # _ \<Rightarrow>
                    (case numericSpecs normalizedCode of
                       Some spec \<Rightarrow>
                         (case v of
                            None \<Rightarrow> Inl (NumericRequiresValue selector)
                          | Some n \<Rightarrow> buildGeneratedNumericCase spec n src_generated)
                     | None \<Rightarrow>
                         (case v of
                            Some _ \<Rightarrow> Inl (ValueNotValidForCommand selector)
                          | None \<Rightarrow> buildCaseFromTruthRow first src_truth)))))"

definition buildSanityCases ::
  "(string \<Rightarrow> TruthCommandRow list) \<Rightarrow> (string \<rightharpoonup> NumericSpec) \<Rightarrow> error + CertifyCase list" where
  "buildSanityCases bySetCode numericSpecs =
     (let c213Rows = bySetCode ''C213'';
          androidRow =
            (case List.find (\<lambda>row. includesStr (toLowerCase (row_description row)) ''android'') c213Rows of
               Some row \<Rightarrow> Some row
             | None \<Rightarrow>
                 (case List.find (\<lambda>row. startsWith (trim (row_description row)) ''0'') c213Rows of
                    Some row \<Rightarrow> Some row
                  | None \<Rightarrow> firstRow c213Rows))
      in (case androidRow of
            None \<Rightarrow> Inl (SanityRowMissing ''C213'')
          | Some row \<Rightarrow>
              (case buildCaseFromTruthRow row src_sanity of
                 Inl e \<Rightarrow> Inl e
               | Inr first \<Rightarrow>
                   (case numericSpecs ''C203'' of
                      None \<Rightarrow> Inl (SanityRowMissing ''C203'')
                    | Some volumeSpec \<Rightarrow>
                        (case buildGeneratedNumericCase volumeSpec 50 src_sanity of
                           Inl e \<Rightarrow> Inl e
                         | Inr second \<Rightarrow>
                             (case numericSpecs ''C21F'' of
                                None \<Rightarrow> Inl (SanityRowMissing ''C21F'')
                              | Some brightnessSpec \<Rightarrow>
                                  (case buildGeneratedNumericCase brightnessSpec 50 src_sanity of
                                     Inl e \<Rightarrow> Inl e
                                   | Inr third \<Rightarrow> Inr [first, second, third])))))))"

text \<open>
  A JavaScript number: a finite one is its real value; \<open>Math.round\<close> rounds to the
  nearest integer, a tie upwards.
\<close>

datatype jsnum = Finite real | NaN | PosInfinity | NegInfinity

definition mathRound :: "real \<Rightarrow> int" where
  "mathRound x = \<lfloor>x + 1 / 2\<rfloor>"

record IssueRecord =
  iss_commandKey :: "string option"
  iss_setCode :: "string option"
  iss_command :: "string option"
  iss_value :: "jsnum option"
  iss_status :: "string option"
  iss_matchType :: "string option"

definition ISSUE_STATUSES :: "string list" where
  "ISSUE_STATUSES = [''FAIL'', ''NO_REPLY'', ''SKIPPED'']"

definition isIssue :: "IssueRecord \<Rightarrow> bool" where
  "isIssue record =
     (let status = toUpperCase (orEmpty (iss_status record));
          match = toUpperCase (orEmpty (iss_matchType record))
      in status \<in> set ISSUE_STATUSES \<or> match = ''MISMATCH'' \<or> includesStr match ''NO_REPLY'')"

text \<open>
  The loop of \<open>buildIssuesCases\<close> over the filtered records, with its variables
  \<open>cases\<close> and \<open>seen\<close>. The key \<open>key|setCode|value\<close> of the source is kept as the
  triple it is made of. A record that maps to no truth command is warned about and
  passed over.
\<close>

fun buildIssuesLoop ::
  "(string \<rightharpoonup> TruthCommandRow) \<Rightarrow> (string \<Rightarrow> TruthCommandRow list) \<Rightarrow> (string \<rightharpoonup> NumericSpec)
     \<Rightarrow> IssueRecord list \<Rightarrow> CertifyCase list \<Rightarrow> (string \<times> string \<times> jsnum option) list
     \<Rightarrow> error + CertifyCase list" where
  "buildIssuesLoop byKey bySetCode numericSpecs [] cases seen = Inr cases"
| "buildIssuesLoop byKey bySetCode numericSpecs (record # records) cases seen =
     (let key = orEmpty (iss_commandKey record);
          setCodeRaw = (case iss_setCode record of Some c \<Rightarrow> Some c | None \<Rightarrow> iss_command record);
          setCode = normalizeCode setCodeRaw;
          v = iss_value record;
          dedupeKey = (key, orEmpty setCode, v)
      in if dedupeKey \<in> set seen
         then buildIssuesLoop byKey bySetCode numericSpecs records cases seen
         else (case (case setCode of
                       None \<Rightarrow> None
                     | Some c \<Rightarrow>
                         (case (numericSpecs c, v) of
                            (Some spec, Some (Finite x)) \<Rightarrow> Some (spec, x)
                          | _ \<Rightarrow> None)) of
                 Some (spec, x) \<Rightarrow>
                   (let boundedValue = max 0 (min 100 (mathRound x))
                    in (case buildGeneratedNumericCase spec boundedValue src_generated of
                          Inl e \<Rightarrow> Inl e
                        | Inr c \<Rightarrow>
                            buildIssuesLoop byKey bySetCode numericSpecs records (cases @ [c])
                              (dedupeKey # seen)))
               | None \<Rightarrow>
                   (case (if key \<noteq> [] then byKey key else None) of
                      Some row \<Rightarrow>
                        (case buildCaseFromTruthRow row src_truth of
                           Inl e \<Rightarrow> Inl e
                         | Inr c \<Rightarrow>
                             buildIssuesLoop byKey bySetCode numericSpecs records (cases @ [c])
                               (dedupeKey # seen))
                    | None \<Rightarrow>
                        (case (case setCode of None \<Rightarrow> None | Some c \<Rightarrow> firstRow (bySetCode c)) of
                           Some row \<Rightarrow>
                             (case buildCaseFromTruthRow row src_truth of
                                Inl e \<Rightarrow> Inl e
                              | Inr c \<Rightarrow>
                                  buildIssuesLoop byKey bySetCode numericSpecs records (cases @ [c])
                                    (dedupeKey # seen))
                         | None \<Rightarrow>
                             buildIssuesLoop byKey bySetCode numericSpecs records cases
                               (dedupeKey # seen)))))"

definition buildIssuesCases ::
  "IssueRecord list \<Rightarrow> (string \<rightharpoonup> TruthCommandRow) \<Rightarrow> (string \<Rightarrow> TruthCommandRow list)
     \<Rightarrow> (string \<rightharpoonup> NumericSpec) \<Rightarrow> error + CertifyCase list" where
  "buildIssuesCases issueRecords byKey bySetCode numericSpecs =
     (case buildIssuesLoop byKey bySetCode numericSpecs (filter isIssue issueRecords) [] [] of
        Inl e \<Rightarrow> Inl e
      | Inr cases \<Rightarrow>
          Inr (filter (\<lambda>item. \<not> case_isPowerCommand item) cases
               @ filter (\<lambda>item. case_isPowerCommand item) cases))"

section \<open>Options and the whole run\<close>

text \<open>
  The command line, after the split into options: each option comes with its operand,
  \<open>--value\<close> with the number \<open>Number(next)\<close>. The options that set the target, the ports
  and the timing, the column list and the debug and prompt switches are left out.
\<close>

datatype Arg =
    ArgSingle string
  | ArgSuite
  | ArgSanityTest
  | ArgIssuesFile string
  | ArgValue jsnum
  | ArgProfile string
  | ArgIncludePower

record OptionsDraft =
  draft_mode :: "RunMode option"
  draft_profile :: ProfileName
  draft_singleSelector :: "string option"
  draft_value :: "int option"
  draft_includePower :: bool

datatype option_error = ModeConflict | InvalidValueArg | InvalidProfile string | ModeRequired

definition setMode :: "OptionsDraft \<Rightarrow> RunMode \<Rightarrow> option_error + OptionsDraft" where
  "setMode d next =
     (case draft_mode d of
        Some m \<Rightarrow> if m \<noteq> next then Inl ModeConflict else Inr (d\<lparr> draft_mode := Some next \<rparr>)
      | None \<Rightarrow> Inr (d\<lparr> draft_mode := Some next \<rparr>))"

fun parseArgs :: "Arg list \<Rightarrow> OptionsDraft \<Rightarrow> option_error + OptionsDraft" where
  "parseArgs [] d = Inr d"
| "parseArgs (ArgSingle next # argv) d =
     (case setMode d mode_single of
        Inl e \<Rightarrow> Inl e
      | Inr d' \<Rightarrow> parseArgs argv (d'\<lparr> draft_singleSelector := Some next \<rparr>))"
| "parseArgs (ArgSuite # argv) d =
     (case setMode d mode_suite of Inl e \<Rightarrow> Inl e | Inr d' \<Rightarrow> parseArgs argv d')"
| "parseArgs (ArgSanityTest # argv) d =
     (case setMode d mode_sanity of Inl e \<Rightarrow> Inl e | Inr d' \<Rightarrow> parseArgs argv d')"
| "parseArgs (ArgIssuesFile next # argv) d =
     (case setMode d mode_issues of Inl e \<Rightarrow> Inl e | Inr d' \<Rightarrow> parseArgs argv d')"
| "parseArgs (ArgValue numeric # argv) d =
     (case numeric of
        Finite x \<Rightarrow>
          if x < 0 \<or> x > 100 then Inl InvalidValueArg
          else parseArgs argv (d\<lparr> draft_value := Some (mathRound x) \<rparr>)
      | _ \<Rightarrow> Inl InvalidValueArg)"
| "parseArgs (ArgProfile next # argv) d =
     (if next = ''exview-aio'' then parseArgs argv (d\<lparr> draft_profile := exview_aio \<rparr>)
      else if next = ''generic'' then parseArgs argv (d\<lparr> draft_profile := generic \<rparr>)
      else Inl (InvalidProfile next))"
| "parseArgs (ArgIncludePower # argv) d = parseArgs argv (d\<lparr> draft_includePower := True \<rparr>)"

definition parseOptions :: "Arg list \<Rightarrow> option_error + CliOptions" where
  "parseOptions argv =
     (case parseArgs argv \<lparr> draft_mode = None, draft_profile = exview_aio, draft_singleSelector = None,
                            draft_value = None, draft_includePower = False \<rparr> of
        Inl e \<Rightarrow> Inl e
      | Inr d \<Rightarrow>
          (case draft_mode d of
             None \<Rightarrow> Inl ModeRequired
           | Some m \<Rightarrow>
               Inr \<lparr> opt_mode = m, opt_profile = draft_profile d,
                     opt_singleSelector = draft_singleSelector d, opt_value = draft_value d,
                     opt_includePower = draft_includePower d \<rparr>))"

text \<open>
  \<open>run\<close>. What it reads from outside is its input: the command line, the truth rows,
  the exclusion list of the profile, the records of the issues file, and the network.
  It ends with the records and the datagrams it has sent, or with the error it stopped
  on; a configuration error is one that stops it before the socket is opened.
\<close>

record RunInput =
  in_argv :: "Arg list"
  in_rows :: "TruthCommandRow list"
  in_exclusionFile :: "SuiteExclusionEntry list option"
  in_issueRecords :: "IssueRecord list"
  in_network :: Network

datatype run_error = OptionError option_error | EngineError error

record RunResult =
  res_records :: "CertifyRecord list"
  res_transmitted :: "int list list"
  res_error :: "run_error option"

definition abortRun :: "run_error \<Rightarrow> RunResult" where
  "abortRun e = \<lparr> res_records = [], res_transmitted = [], res_error = Some e \<rparr>"

definition run :: "RunInput \<Rightarrow> RunResult" where
  "run inp =
     (case parseOptions (in_argv inp) of
        Inl e \<Rightarrow> abortRun (OptionError e)
      | Inr options \<Rightarrow>
          (let rows = in_rows inp;
               suiteExclusions =
                 (if opt_mode options = mode_suite
                  then loadSuiteExclusions (opt_profile options) (in_exclusionFile inp)
                  else Map.empty);
               byKey = byKeyOf rows;
               bySetCode = bySetCodeOf rows
           in (case deriveNumericSpecs bySetCode of
                 Inl e \<Rightarrow> abortRun (EngineError e)
               | Inr numericSpecs \<Rightarrow>
                   (case (if opt_mode options = mode_suite then buildSuiteCases rows numericSpecs
                          else if opt_mode options = mode_single
                          then (case buildSingleCase byKey bySetCode numericSpecs
                                       (orEmpty (opt_singleSelector options)) (opt_value options) of
                                  Inl e \<Rightarrow> Inl e | Inr c \<Rightarrow> Inr [c])
                          else if opt_mode options = mode_issues
                          then buildIssuesCases (in_issueRecords inp) byKey bySetCode numericSpecs
                          else buildSanityCases bySetCode numericSpecs) of
                      Inl e \<Rightarrow> abortRun (EngineError e)
                    | Inr runCases \<Rightarrow>
                        (let final = runLoop (in_network inp) options suiteExclusions
                                       \<lparr> run_records = [], run_transmitted = [], run_failure = None \<rparr>
                                       runCases
                         in \<lparr> res_records = (if run_failure final = None then run_records final else []),
                              res_transmitted = run_transmitted final,
                              res_error = map_option EngineError (run_failure final) \<rparr>)))))"

section \<open>Notions used to state the properties\<close>

definition tailMarkerAt :: "int list \<Rightarrow> int \<Rightarrow> bool" where
  "tailMarkerAt bytes i =
     (max 0 (int (length bytes) - 96) \<le> i \<and> i \<le> int (length bytes) - 4
      \<and> bytes ! nat i = 0 \<and> bytes ! nat (i + 2) = 0
      \<and> i + 3 + bytes ! nat (i + 1) = int (length bytes) - 1)"

definition tailMarkers :: "int list \<Rightarrow> int set" where
  "tailMarkers bytes = {i. tailMarkerAt bytes i}"

definition candidateAt :: "int list \<Rightarrow> int \<Rightarrow> TailCandidate" where
  "candidateAt bytes i =
     \<lparr> cand_index = i, cand_length = bytes ! nat (i + 1),
       cand_data = js_slice bytes (i + 3) (int (length bytes) - 1) \<rparr>"

definition markerList :: "int list \<Rightarrow> int list" where
  "markerList bytes = filter (tailMarkerAt bytes)
      (rev [max 0 (int (length bytes) - 96) .. int (length bytes) - 4])"

definition derivedSpec :: "(string \<Rightarrow> TruthCommandRow list) \<Rightarrow> string \<Rightarrow> NumericSpec \<Rightarrow> bool" where
  "derivedSpec bySetCode c spec =
     (c \<in> set NUMERIC_SET_CODES \<and> spec_setCode spec = c
      \<and> spec_valueIndex spec = 38 \<and> spec_checksumIndex spec = 39
      \<and> firstRow (bySetCode c) = Some (spec_baseRow spec)
      \<and> (\<exists>bytes. parseHexBytes (row_requestHex (spec_baseRow spec)) = Inr bytes \<and> length bytes = 40))"

definition volumeRow :: "string \<Rightarrow> TruthCommandRow" where
  "volumeRow requestHex =
     \<lparr> row_rowNumber = 12, row_commandKey = ''set-volume'', row_category = ''Set volume'',
       row_description = ''Volume 0-100'', row_requestHex = requestHex,
       row_replyHex = None, row_setCommandCode = Some ''0xC203'',
       row_replyCommandCode = Some ''0xC204'', row_instruction = [], row_remark = [],
       row_transport = None, row_excludedReason = None \<rparr>"

definition volumeSpec :: "string \<Rightarrow> NumericSpec" where
  "volumeSpec requestHex =
     \<lparr> spec_setCode = ''C203'', spec_valueIndex = 38, spec_checksumIndex = 39,
       spec_baseRow = volumeRow requestHex, spec_queryCode = Some ''C201'', spec_queryRow = None \<rparr>"

definition agreeingTemplate :: string where
  "agreeingTemplate = ''55 55 55 55 55 55 55 00 5B 00 00 00 00 00 00 00 00 00 00 00 00 00 00 00 00 00 00 00 00 00 00 00 00 00 00 00 00 00 00 5B''"

definition driftedTemplate :: string where
  "driftedTemplate = ''55 55 55 55 55 55 55 00 00 00 00 00 00 00 00 00 00 00 00 00 00 00 00 00 00 00 00 00 00 00 00 00 00 00 00 00 00 00 00 00''"

definition registeredPolicy :: "CertifyCase \<Rightarrow> CommandPolicy option" where
  "registeredPolicy caseItem =
     (case normalizeCode (case_setCode caseItem) of
        None \<Rightarrow> None
      | Some code \<Rightarrow> COMMAND_POLICY_BY_CODE code)"

definition sceneModeText :: "CertifyCase \<Rightarrow> bool" where
  "sceneModeText caseItem =
     includesStr (toLowerCase (case_category caseItem @ '' '' @ case_description caseItem))
       ''query scene mode''"

definition exampleRow :: "string \<Rightarrow> string \<Rightarrow> string option \<Rightarrow> string option \<Rightarrow> string option
                            \<Rightarrow> TruthCommandRow" where
  "exampleRow category description setCode replyCode replyHex =
     \<lparr> row_rowNumber = 1, row_commandKey = ''example'', row_category = category,
       row_description = description,
       row_requestHex = ''55 55 55 55 55 55 55 00 01 00 00 01'',
       row_replyHex = replyHex, row_setCommandCode = setCode,
       row_replyCommandCode = replyCode, row_instruction = [], row_remark = [],
       row_transport = None, row_excludedReason = None \<rparr>"

definition differsOnlyInChecksum :: "int list \<Rightarrow> int list \<Rightarrow> bool" where
  "differsOnlyInChecksum expected rx =
     (length expected = length rx \<and> expected \<noteq> [] \<and> butlast expected = butlast rx)"

definition statusWordSuccess :: "int list \<Rightarrow> bool" where
  "statusWordSuccess rx =
     (case extractTailPayload rx of
        None \<Rightarrow> False
      | Some payload \<Rightarrow>
          2 \<le> length (pd_data payload)
          \<and> pd_data payload ! 0 OR push_bit 8 (pd_data payload ! 1) = 0x0001)"

definition replyCodeAccepted :: "CertifyCase \<Rightarrow> CliOptions \<Rightarrow> int list \<Rightarrow> bool" where
  "replyCodeAccepted caseItem options rx =
     (pol_acceptAnyReplyCode (resolvePolicy caseItem (opt_profile options))
      \<or> isReplyCodeAccepted (case_replyCode caseItem) (fst (decodeReplyCode rx))
            (pol_allowedReplyCodes (resolvePolicy caseItem (opt_profile options))))"

definition exampleOptions :: "RunMode \<Rightarrow> CliOptions" where
  "exampleOptions m =
     \<lparr> opt_mode = m, opt_profile = exview_aio, opt_singleSelector = None, opt_value = None,
       opt_includePower = False \<rparr>"

definition ackTemplate :: string where
  "ackTemplate = ''55 55 55 55 55 55 55 00 D0 14 C2 00 02 00 00 A8''"

definition emptyRun :: RunState where
  "emptyRun = \<lparr> run_records = [], run_transmitted = [], run_failure = None \<rparr>"

definition silentNetwork :: Network where
  "silentNetwork n txBytes = Timeout"

definition disabledMonitoring :: "SuiteExclusionEntry list" where
  "disabledMonitoring = [\<lparr> excl_code = Some ''0xC131'', excl_reason = Some ''disabled'' \<rparr>]"

definition skipReasonFor :: "CertifyCase \<Rightarrow> CliOptions \<Rightarrow> string \<Rightarrow> string" where
  "skipReasonFor caseItem options reason =
     (if case_isPowerCommand caseItem \<and> \<not> opt_includePower options
      then ''Power stage excluded (add --include-power)''
      else if case_serialOnly caseItem then ''Serial-only or non-UDP request frame''
      else reason)"

definition hdmiFlagsValid :: "int list \<Rightarrow> bool" where
  "hdmiFlagsValid flags = (\<not> list_ex (\<lambda>item. item \<noteq> 0 \<and> item \<noteq> 1) flags)"

definition hdmiFrameResult :: "int list \<Rightarrow> ParseResult" where
  "hdmiFrameResult flags =
     \<lparr> pr_ok = True,
       pr_parsed = Some
         [(''hdmi1'', PNum (flags ! 0)), (''hdmi2'', PNum (flags ! 1)),
          (''hdmi3'', PNum (flags ! 2)), (''hdmi4'', PNum (flags ! 3)),
          (''payloadHex'', PStr (bytesToHex flags)),
          (''activeInputs'', PStrs
             (map fst (filter (\<lambda>(name, index). flags ! index = 1)
                (zip [''HDMI1'', ''HDMI2'', ''HDMI3'', ''HDMI4''] [0 ..< 4]))))],
       pr_value = None \<rparr>"

definition initialDraft :: OptionsDraft where
  "initialDraft = \<lparr> draft_mode = None, draft_profile = exview_aio, draft_singleSelector = None,
                     draft_value = None, draft_includePower = False \<rparr>"

definition issueSetCode :: "IssueRecord \<Rightarrow> string option" where
  "issueSetCode record =
     normalizeCode (case iss_setCode record of Some c \<Rightarrow> Some c | None \<Rightarrow> iss_command record)"

definition volumeIssue :: "real \<Rightarrow> IssueRecord" where
  "volumeIssue x =
     \<lparr> iss_commandKey = Some ''set-volume:gen-150'', iss_setCode = Some ''0xC203'',
       iss_command = None, iss_value = Some (Finite x), iss_status = Some ''FAIL'',
       iss_matchType = Some ''MISMATCH'' \<rparr>"

definition exampleInput :: "Arg list \<Rightarrow> TruthCommandRow list \<Rightarrow> RunInput" where
  "exampleInput argv rows =
     \<lparr> in_argv = argv, in_rows = rows, in_exclusionFile = None, in_issueRecords = [],
       in_network = silentNetwork \<rparr>"

section \<open>Sanity checks of the string model\<close>

lemma parse_example: "parseHexBytes ''55 0xd0,1f  aB'' = Inr [85, 208, 31, 171]"
  by code_simp

lemma parse_example2: "parseHexBytes ''55 5'' = Inl (InvalidHexToken ''5'')"
  by code_simp

lemma norm_example: "normalizeCode (Some ''0xc203'') = Some ''C203'' \<and> normalizeCode (Some ''1f'') = Some ''001F''
  \<and> bytesToHex [85, 1, 255] = ''55 01 FF'' \<and> showInt 100 = ''100''"
  by code_simp

section \<open>The tail payload scan\<close>

lemma scanTailStep_candidates:
  assumes "0 \<le> i" "i \<le> int (length bytes) - 4"
  shows "scan_candidates (scanTailStep bytes st i) =
           scan_candidates st @
             (if bytes ! nat i = 0 \<and> bytes ! nat (i + 2) = 0
                 \<and> i + 3 + bytes ! nat (i + 1) = int (length bytes) - 1
              then [candidateAt bytes i] else [])"
proof (cases "bytes ! nat i = 0 \<and> bytes ! nat (i + 2) = 0
                 \<and> i + 3 + bytes ! nat (i + 1) = int (length bytes) - 1")
  case True
  then have e: "i + 3 + bytes ! nat (i + 1) = int (length bytes) - 1" by simp
  have sl: "js_slice bytes (i + 3) (i + 3 + bytes ! nat (i + 1))
            = js_slice bytes (i + 3) (int (length bytes) - 1)"
    by (simp only: e)
  show ?thesis
    using assms True by (simp add: scanTailStep_def js_nth_def candidateAt_def Let_def sl)
next
  case False
  then show ?thesis
    using assms by (auto simp: scanTailStep_def js_nth_def Let_def)
qed

lemma scanTailStep_reads:
  assumes "0 \<le> i" "i \<le> int (length bytes) - 4"
    and "\<forall>r \<in> set (scan_reads st). 0 \<le> r \<and> r < int (length bytes)"
  shows "\<forall>r \<in> set (scan_reads (scanTailStep bytes st i)). 0 \<le> r \<and> r < int (length bytes)"
  using assms by (auto simp: scanTailStep_def js_nth_def Let_def split: option.splits)

lemma foldl_scan_candidates:
  assumes "\<forall>i \<in> set xs. 0 \<le> i \<and> i \<le> int (length bytes) - 4"
  shows "scan_candidates (foldl (scanTailStep bytes) st xs) =
           scan_candidates st @ map (candidateAt bytes)
             (filter (\<lambda>i. bytes ! nat i = 0 \<and> bytes ! nat (i + 2) = 0
                 \<and> i + 3 + bytes ! nat (i + 1) = int (length bytes) - 1) xs)"
  using assms
proof (induction xs arbitrary: st)
  case Nil
  then show ?case by simp
next
  case (Cons x xs)
  then show ?case by (simp add: scanTailStep_candidates)
qed

lemma foldl_scan_reads:
  assumes "\<forall>i \<in> set xs. 0 \<le> i \<and> i \<le> int (length bytes) - 4"
    and "\<forall>r \<in> set (scan_reads st). 0 \<le> r \<and> r < int (length bytes)"
  shows "\<forall>r \<in> set (scan_reads (foldl (scanTailStep bytes) st xs)). 0 \<le> r \<and> r < int (length bytes)"
  using assms
proof (induction xs arbitrary: st)
  case Nil
  then show ?case by simp
next
  case (Cons x xs)
  have first: "0 \<le> x" "x \<le> int (length bytes) - 4"
    using Cons.prems(1) by auto
  have rest: "\<forall>i \<in> set xs. 0 \<le> i \<and> i \<le> int (length bytes) - 4"
    using Cons.prems(1) by simp
  have step: "\<forall>r \<in> set (scan_reads (scanTailStep bytes st x)). 0 \<le> r \<and> r < int (length bytes)"
    using first Cons.prems(2) by (rule scanTailStep_reads)
  show ?case
    using Cons.IH [OF rest step] by simp
qed

lemma scanTail_candidates:
  "scan_candidates (scanTail bytes) = map (candidateAt bytes) (markerList bytes)"
proof -
  let ?xs = "rev [max 0 (int (length bytes) - 96) .. int (length bytes) - 4]"
  have win: "\<forall>i \<in> set ?xs. 0 \<le> i \<and> i \<le> int (length bytes) - 4" by auto
  have "filter (\<lambda>i. bytes ! nat i = 0 \<and> bytes ! nat (i + 2) = 0
                 \<and> i + 3 + bytes ! nat (i + 1) = int (length bytes) - 1) ?xs
        = filter (tailMarkerAt bytes) ?xs"
    by (rule filter_cong) (auto simp: tailMarkerAt_def)
  then show ?thesis
    unfolding scanTail_def Let_def markerList_def
    by (simp add: foldl_scan_candidates [OF win])
qed

lemma scanTail_reads:
  "\<forall>r \<in> set (scan_reads (scanTail bytes)). 0 \<le> r \<and> r < int (length bytes)"
  unfolding scanTail_def Let_def
  by (rule foldl_scan_reads) simp_all

lemma set_markerList: "set (markerList bytes) = tailMarkers bytes"
  by (auto simp: markerList_def tailMarkers_def tailMarkerAt_def)

lemma distinct_markerList: "distinct (markerList bytes)"
  by (simp add: markerList_def)

lemma sorted_rev_markerList: "sorted (rev (markerList bytes))"
  by (simp add: markerList_def rev_filter sorted_wrt_filter)

lemma hd_descending:
  fixes xs :: "int list"
  assumes "sorted (rev xs)" "xs \<noteq> []"
  shows "hd xs = Max (set xs)"
proof -
  obtain x ys where xs: "xs = x # ys" using assms(2) by (cases xs) auto
  have "\<forall>y \<in> set ys. y \<le> x" using assms(1) by (auto simp: xs sorted_append)
  then show ?thesis by (simp add: xs Max_insert2 Max_eqI)
qed

section \<open>The checksum rule\<close>

lemma and_255: "(x::int) AND 0xff = x mod 256"
proof -
  have "x AND mask 8 = x mod 2 ^ 8"
    by (simp only: take_bit_eq_mask [symmetric] take_bit_eq_mod)
  moreover have "mask 8 = (255::int)"
    by (simp add: mask_eq_exp_minus_1)
  ultimately show ?thesis by simp
qed

lemma checksum_fold:
  fixes a :: int and f :: "int \<Rightarrow> int"
  shows "foldl (\<lambda>sum index. (sum + f index) AND 0xff) (a mod 256) idx
     = (a + sum_list (map f idx)) mod 256"
proof (induction idx arbitrary: a)
  case Nil
  then show ?case by simp
next
  case (Cons i idx)
  have "foldl (\<lambda>sum index. (sum + f index) AND 0xff) (a mod 256) (i # idx)
        = foldl (\<lambda>sum index. (sum + f index) AND 0xff) ((a + f i) mod 256) idx"
    by (simp add: and_255 mod_simps)
  also have "\<dots> = (a + f i + sum_list (map f idx)) mod 256"
    by (rule Cons.IH)
  finally show ?case by (simp add: add.assoc)
qed

lemma computePdfChecksum_sum:
  assumes "10 \<le> length bytes"
  shows "computePdfChecksum bytes
           = (\<Sum>index\<leftarrow>[8 .. int (length bytes) - 2]. bytes ! nat index) mod 256"
  using assms checksum_fold [of "\<lambda>index. bytes ! nat index" 0 "[8 .. int (length bytes) - 2]"]
  by (simp add: computePdfChecksum_def)

lemma computePdfChecksum_last_update:
  assumes "k = length bytes - 1"
  shows "computePdfChecksum (bytes[k := c]) = computePdfChecksum bytes"
proof (cases "length bytes < 10")
  case True
  then show ?thesis by (simp add: computePdfChecksum_def)
next
  case False
  have "foldl (\<lambda>sum index. (sum + bytes[k := c] ! nat index) AND 0xff) 0 [8 .. int (length bytes) - 2]
        = foldl (\<lambda>sum index. (sum + bytes ! nat index) AND 0xff) 0 [8 .. int (length bytes) - 2]"
    using assms by (intro foldl_cong) auto
  then show ?thesis using False by (simp add: computePdfChecksum_def)
qed

lemma upto_8_38: "[8 .. 38::int] = [8 .. 37] @ [38]"
  by (simp add: upto_rec2)

section \<open>Numeric specs and synthesized requests\<close>

lemma numeric_index_table:
  "c \<in> set NUMERIC_SET_CODES \<Longrightarrow> NUMERIC_VALUE_INDEX_BY_SET c = Some (38, 39)"
  by (auto simp: NUMERIC_SET_CODES_def NUMERIC_VALUE_INDEX_BY_SET_def)

lemma deriveNumericSpecsFrom_inv:
  assumes "deriveNumericSpecsFrom bySetCode codes specs = Inr out"
    and "set codes \<subseteq> set NUMERIC_SET_CODES"
    and "\<forall>c spec. specs c = Some spec \<longrightarrow> derivedSpec bySetCode c spec"
  shows "\<forall>c spec. out c = Some spec \<longrightarrow> derivedSpec bySetCode c spec"
  using assms
proof (induction codes arbitrary: specs)
  case Nil
  then show ?case by simp
next
  case (Cons code codes)
  have idx: "NUMERIC_VALUE_INDEX_BY_SET code = Some (38, 39)"
    using Cons.prems(2) by (simp add: numeric_index_table)
  show ?case
  proof (cases "bySetCode code")
    case Nil
    then show ?thesis using Cons by simp
  next
    case (Cons baseRow more)
    from Cons.prems(1) obtain txBytes where
      p: "parseHexBytes (row_requestHex baseRow) = Inr txBytes"
      by (auto simp: Cons idx split: sum.splits)
    from Cons.prems(1) have len: "length txBytes = 40"
      by (auto simp: Cons idx p split: if_splits)
    let ?spec = "\<lparr> spec_setCode = code, spec_valueIndex = 38, spec_checksumIndex = 39,
                    spec_baseRow = baseRow, spec_queryCode = CLOSED_LOOP_QUERY_BY_SET code,
                    spec_queryRow = (case CLOSED_LOOP_QUERY_BY_SET code of
                                       None \<Rightarrow> None
                                     | Some queryCode \<Rightarrow> firstRow (bySetCode queryCode)) \<rparr>"
    have rec: "deriveNumericSpecsFrom bySetCode codes (specs(code \<mapsto> ?spec)) = Inr out"
      using Cons.prems(1) by (simp add: Cons idx p len)
    have new: "derivedSpec bySetCode code ?spec"
      using Cons.prems(2) by (simp add: derivedSpec_def Cons p len firstRow_def)
    have inv: "\<forall>c spec. (specs(code \<mapsto> ?spec)) c = Some spec \<longrightarrow> derivedSpec bySetCode c spec"
      using new Cons.prems(3) by auto
    show ?thesis
      using Cons.IH [OF rec _ inv] Cons.prems(2) by simp
  qed
qed

lemma deriveNumericSpecs_sound:
  assumes "deriveNumericSpecs bySetCode = Inr specs" and "specs c = Some spec"
  shows "derivedSpec bySetCode c spec"
  using deriveNumericSpecsFrom_inv [of bySetCode NUMERIC_SET_CODES Map.empty specs] assms
  by (simp add: deriveNumericSpecs_def)

lemma deriveNumericSpecsFrom_dom:
  assumes "deriveNumericSpecsFrom bySetCode codes specs = Inr out"
  shows "dom out = dom specs \<union> {c \<in> set codes. bySetCode c \<noteq> []}"
  using assms
proof (induction codes arbitrary: specs)
  case Nil
  then show ?case by simp
next
  case step: (Cons code codes)
  show ?case
  proof (cases "bySetCode code")
    case Nil
    then show ?thesis using step by auto
  next
    case rows: (Cons baseRow more)
    from step.prems obtain spec where
      "deriveNumericSpecsFrom bySetCode codes (specs(code \<mapsto> spec)) = Inr out"
      by (auto simp: rows split: option.splits sum.splits if_splits)
    from step.IH [OF this] show ?thesis
      using rows by (auto simp: dom_def split: if_splits)
  qed
qed

lemma deriveNumericSpecs_dom:
  assumes "deriveNumericSpecs bySetCode = Inr specs"
  shows "dom specs = {c \<in> set NUMERIC_SET_CODES. bySetCode c \<noteq> []}"
  using deriveNumericSpecsFrom_dom [of bySetCode NUMERIC_SET_CODES Map.empty specs] assms
  by (simp add: deriveNumericSpecs_def)

lemma formula_base_range:
  "FORMULA_CHECKSUM_BASE c = Some fb \<Longrightarrow> 0 \<le> fb \<and> fb < 256"
  by (auto simp: FORMULA_CHECKSUM_BASE_def split: if_splits)

lemma generated_txBytes:
  assumes d: "derivedSpec bySetCode c spec"
    and p: "parseHexBytes (row_requestHex (spec_baseRow spec)) = Inr base"
    and b: "buildGeneratedNumericCase spec v source = Inr cs"
  shows "length base = 40"
    and "case_txBytes cs =
           base[38 := v AND 0xff,
                39 := (case FORMULA_CHECKSUM_BASE c of
                         Some formulaBase \<Rightarrow> (formulaBase + v) AND 0xff
                       | None \<Rightarrow> computePdfChecksum (base[38 := v AND 0xff]))]"
proof -
  from d p show len: "length base = 40" by (auto simp: derivedSpec_def)
  from d have i: "spec_valueIndex spec = 38" "spec_checksumIndex spec = 39" "spec_setCode spec = c"
    by (auto simp: derivedSpec_def)
  from b show "case_txBytes cs =
           base[38 := v AND 0xff,
                39 := (case FORMULA_CHECKSUM_BASE c of
                         Some formulaBase \<Rightarrow> (formulaBase + v) AND 0xff
                       | None \<Rightarrow> computePdfChecksum (base[38 := v AND 0xff]))]"
    by (auto simp: buildGeneratedNumericCase_def p i len js_set_def split: sum.splits)
qed

lemma generated_exists:
  assumes d: "derivedSpec bySetCode c spec"
  shows "(\<exists>cs. buildGeneratedNumericCase spec v source = Inr cs)
           \<longleftrightarrow> (\<exists>e. parseOptionalHex (row_replyHex (spec_baseRow spec)) = Inr e)"
proof -
  from d obtain base where p: "parseHexBytes (row_requestHex (spec_baseRow spec)) = Inr base"
    and len: "length base = 40" by (auto simp: derivedSpec_def)
  from d have i: "spec_valueIndex spec = 38" "spec_checksumIndex spec = 39"
    by (auto simp: derivedSpec_def)
  show ?thesis
    by (auto simp: buildGeneratedNumericCase_def p i len js_set_def split: sum.splits)
qed

lemma sum_8_38:
  assumes "length base = 40"
  shows "(\<Sum>index\<leftarrow>[8 .. 38]. base[38 := a, 39 := b] ! nat index)
           = (\<Sum>index\<leftarrow>[8 .. 37]. base ! nat index) + a"
proof -
  let ?f = "\<lambda>index. base[38 := a, 39 := b] ! nat index"
  have m: "map ?f [8 .. 37] = map (\<lambda>index. base ! nat index) [8 .. 37]"
    by (rule map_cong) auto
  have "sum_list (map ?f [8 .. 38]) = sum_list (map ?f [8 .. 37]) + ?f 38"
    by (simp add: upto_8_38 del: upto_rec_numeral)
  also have "?f 38 = a" using assms by simp
  finally show ?thesis by (simp only: m)
qed

lemma generated_checksum:
  assumes len: "length base = 40" and v: "0 \<le> v" "v \<le> 100"
  shows "computePdfChecksum (base[38 := v AND 0xff, 39 := chk])
           = ((\<Sum>index\<leftarrow>[8 .. 37]. base ! nat index) + v) mod 256"
proof -
  have vv: "v AND 0xff = v" using v by (simp add: and_255)
  have "computePdfChecksum (base[38 := v, 39 := chk])
          = (\<Sum>index\<leftarrow>[8 .. 38]. base[38 := v, 39 := chk] ! nat index) mod 256"
    using len computePdfChecksum_sum [of "base[38 := v, 39 := chk]"]
    by (simp del: upto_rec_numeral)
  then show ?thesis using len by (simp add: vv sum_8_38 del: upto_rec_numeral)
qed

lemma mod_shift:
  fixes fb v S :: int
  assumes "0 \<le> fb" "fb < 256"
  shows "((fb + v) mod 256 = (S + v) mod 256) = (S mod 256 = fb)"
proof
  assume h: "(fb + v) mod 256 = (S + v) mod 256"
  have "(fb + v - v) mod 256 = (S + v - v) mod 256"
    using h by (rule mod_diff_cong) simp
  then show "S mod 256 = fb" using assms by simp
next
  assume h: "S mod 256 = fb"
  have "(S + v) mod 256 = (S mod 256 + v) mod 256" by (simp add: mod_simps)
  then show "(fb + v) mod 256 = (S + v) mod 256" using h by simp
qed

lemma volume_base: "FORMULA_CHECKSUM_BASE ''C203'' = Some 0x5b"
  by (simp add: FORMULA_CHECKSUM_BASE_def)

text \<open>
  Claim C1, as amended. Take any of the eight numeric set codes that \<open>deriveNumericSpecs\<close>
  has given a spec, and any value \<open>v\<close> with \<open>0 \<le> v \<le> 100\<close>. The baseline request has
  40 bytes, and the request synthesized from it has 40 bytes with \<open>v\<close> at offset 38. For a
  code without a formula its last byte is \<open>computePdfChecksum\<close> of the synthesized
  request. For a code with a formula (\<open>C203\<close>, \<open>C21F\<close>) its last byte is
  \<open>(formulaBase + v) & 0xFF\<close>, and this is \<open>computePdfChecksum\<close> of the synthesized
  request exactly when the baseline bytes at offsets 8 to 37 sum to \<open>formulaBase\<close>
  modulo 256. For \<open>C203\<close> and \<open>v = 50\<close> the last byte is \<open>0x8D\<close>.
\<close>

theorem numeric_synthesis_checksum:
  assumes "deriveNumericSpecs bySetCode = Inr specs" and "specs c = Some spec"
    and "0 \<le> v" and "v \<le> 100"
    and "buildGeneratedNumericCase spec v source = Inr cs"
  shows "\<exists>base. parseHexBytes (row_requestHex (spec_baseRow spec)) = Inr base
           \<and> length base = 40 \<and> length (case_txBytes cs) = 40
           \<and> case_txBytes cs ! 38 = v
           \<and> (FORMULA_CHECKSUM_BASE c = None \<longrightarrow>
                last (case_txBytes cs) = computePdfChecksum (case_txBytes cs))
           \<and> (\<forall>formulaBase. FORMULA_CHECKSUM_BASE c = Some formulaBase \<longrightarrow>
                last (case_txBytes cs) = (formulaBase + v) AND 0xff
                \<and> (last (case_txBytes cs) = computePdfChecksum (case_txBytes cs)
                     \<longleftrightarrow> (\<Sum>index\<leftarrow>[8 .. 37]. base ! nat index) mod 256 = formulaBase))
           \<and> (c = ''C203'' \<and> v = 50 \<longrightarrow> last (case_txBytes cs) = 0x8d)"
proof -
  have d: "derivedSpec bySetCode c spec"
    using assms(1,2) by (rule deriveNumericSpecs_sound)
  then obtain base where p: "parseHexBytes (row_requestHex (spec_baseRow spec)) = Inr base"
    by (auto simp: derivedSpec_def)
  note tx = generated_txBytes [OF d p assms(5)]
  let ?chk = "case FORMULA_CHECKSUM_BASE c of
                Some formulaBase \<Rightarrow> (formulaBase + v) AND 0xff
              | None \<Rightarrow> computePdfChecksum (base[38 := v AND 0xff])"
  have vv: "v AND 0xff = v" using assms(3,4) by (simp add: and_255)
  have len: "length (case_txBytes cs) = 40" using tx by simp
  have val: "case_txBytes cs ! 38 = v" using tx by (simp add: vv)
  have "base \<noteq> []" using tx(1) by auto
  then have lst: "last (case_txBytes cs) = ?chk"
    using tx by (simp add: last_conv_nth)
  have sum: "computePdfChecksum (case_txBytes cs)
               = ((\<Sum>index\<leftarrow>[8 .. 37]. base ! nat index) + v) mod 256"
    using tx generated_checksum [OF tx(1) assms(3,4)] by (simp del: upto_rec_numeral)
  have plain: "FORMULA_CHECKSUM_BASE c = None \<longrightarrow>
                 last (case_txBytes cs) = computePdfChecksum (case_txBytes cs)"
  proof
    assume n: "FORMULA_CHECKSUM_BASE c = None"
    have "computePdfChecksum (case_txBytes cs) = computePdfChecksum (base[38 := v AND 0xff])"
      using tx computePdfChecksum_last_update [of 39 "base[38 := v AND 0xff]"] by simp
    then show "last (case_txBytes cs) = computePdfChecksum (case_txBytes cs)"
      using lst n by simp
  qed
  have formula: "\<forall>formulaBase. FORMULA_CHECKSUM_BASE c = Some formulaBase \<longrightarrow>
                last (case_txBytes cs) = (formulaBase + v) AND 0xff
                \<and> (last (case_txBytes cs) = computePdfChecksum (case_txBytes cs)
                     \<longleftrightarrow> (\<Sum>index\<leftarrow>[8 .. 37]. base ! nat index) mod 256 = formulaBase)"
  proof (intro allI impI)
    fix formulaBase
    assume f: "FORMULA_CHECKSUM_BASE c = Some formulaBase"
    then have r: "0 \<le> formulaBase" "formulaBase < 256" using formula_base_range by auto
    have l: "last (case_txBytes cs) = (formulaBase + v) mod 256"
      using lst f by (simp add: and_255)
    have "(formulaBase + v) mod 256 = ((\<Sum>index\<leftarrow>[8 .. 37]. base ! nat index) + v) mod 256
            \<longleftrightarrow> (\<Sum>index\<leftarrow>[8 .. 37]. base ! nat index) mod 256 = formulaBase"
      using r by (rule mod_shift)
    then show "last (case_txBytes cs) = (formulaBase + v) AND 0xff
                \<and> (last (case_txBytes cs) = computePdfChecksum (case_txBytes cs)
                     \<longleftrightarrow> (\<Sum>index\<leftarrow>[8 .. 37]. base ! nat index) mod 256 = formulaBase)"
      using l sum by (simp only: and_255 simp_thms)
  qed
  have volume: "c = ''C203'' \<and> v = 50 \<longrightarrow> last (case_txBytes cs) = 0x8d"
    using lst by (auto simp: volume_base and_255)
  show ?thesis
    by (intro exI [of _ base] conjI p tx(1) len val plain formula volume)
qed

lemma volume_rows:
  "bySetCodeOf [volumeRow h] c = (if c = ''C203'' then [volumeRow h] else [])"
proof -
  have "normalizeCode (Some ''0xC203'') = Some ''C203''" by code_simp
  then show ?thesis by (auto simp: bySetCodeOf_def volumeRow_def)
qed

lemma agreeing_parse:
  "parseHexBytes agreeingTemplate =
     Inr [85, 85, 85, 85, 85, 85, 85, 0, 91, 0, 0, 0, 0, 0, 0, 0, 0, 0, 0, 0,
          0, 0, 0, 0, 0, 0, 0, 0, 0, 0, 0, 0, 0, 0, 0, 0, 0, 0, 0, 91]"
  by code_simp

lemma volume_derive:
  assumes "parseHexBytes h = Inr bytes" "length bytes = 40"
  shows "deriveNumericSpecs (bySetCodeOf [volumeRow h]) = Inr [''C203'' \<mapsto> volumeSpec h]"
proof -
  have q: "CLOSED_LOOP_QUERY_BY_SET ''C203'' = Some ''C201''"
    by (simp add: CLOSED_LOOP_QUERY_BY_SET_def)
  have i: "NUMERIC_VALUE_INDEX_BY_SET ''C203'' = Some (38, 39)"
    by (simp add: NUMERIC_VALUE_INDEX_BY_SET_def)
  have r: "row_requestHex (volumeRow h) = h" by (simp add: volumeRow_def)
  show ?thesis
    using assms
    by (simp add: deriveNumericSpecs_def NUMERIC_SET_CODES_def volume_rows q i r
        volumeSpec_def firstRow_def)
qed

text \<open>
  The theorem at a \<open>C203\<close> baseline whose bytes 8 to 37 sum to \<open>0x5B\<close>, with
  \<open>v = 50\<close>: the checksum byte is \<open>0x8D\<close> and agrees with the generic rule.
\<close>

theorem numeric_synthesis_checksum_witness:
  "deriveNumericSpecs (bySetCodeOf [volumeRow agreeingTemplate]) = Inr [''C203'' \<mapsto> volumeSpec agreeingTemplate]
   \<and> (case buildGeneratedNumericCase (volumeSpec agreeingTemplate) 50 src_generated of
        Inl _ \<Rightarrow> False
      | Inr cs \<Rightarrow> last (case_txBytes cs) = 0x8d
                 \<and> last (case_txBytes cs) = computePdfChecksum (case_txBytes cs))"
proof -
  have len: "length [85, 85, 85, 85, 85, 85, 85, 0, 91, 0, 0, 0, 0, 0, 0, 0, 0, 0, 0, 0,
          0, 0, 0, 0, 0, 0, 0, 0, 0, 0, 0, 0, 0, 0, 0, 0, 0, 0, 0, 91::int] = 40" by simp
  have h1: "deriveNumericSpecs (bySetCodeOf [volumeRow agreeingTemplate])
              = Inr [''C203'' \<mapsto> volumeSpec agreeingTemplate]"
    using agreeing_parse len by (rule volume_derive)
  have h2: "[''C203'' \<mapsto> volumeSpec agreeingTemplate] ''C203'' = Some (volumeSpec agreeingTemplate)"
    by simp
  have "(case buildGeneratedNumericCase (volumeSpec agreeingTemplate) 50 src_generated of
           Inl _ \<Rightarrow> False | Inr _ \<Rightarrow> True)"
    by code_simp
  then obtain cs where
    h5: "buildGeneratedNumericCase (volumeSpec agreeingTemplate) 50 src_generated = Inr cs"
    by (auto split: sum.splits)
  have p: "parseHexBytes (row_requestHex (spec_baseRow (volumeSpec agreeingTemplate))) =
     Inr [85, 85, 85, 85, 85, 85, 85, 0, 91, 0, 0, 0, 0, 0, 0, 0, 0, 0, 0, 0,
          0, 0, 0, 0, 0, 0, 0, 0, 0, 0, 0, 0, 0, 0, 0, 0, 0, 0, 0, 91]"
    using agreeing_parse by (simp add: volumeSpec_def volumeRow_def)
  have s: "(\<Sum>index\<leftarrow>[8 .. 37]. [85, 85, 85, 85, 85, 85, 85, 0, 91, 0, 0, 0, 0, 0, 0, 0, 0, 0, 0, 0,
          0, 0, 0, 0, 0, 0, 0, 0, 0, 0, 0, 0, 0, 0, 0, 0, 0, 0, 0, 91::int] ! nat index) mod 256 = 91"
    by code_simp
  from numeric_synthesis_checksum [OF h1 h2 _ _ h5] p s
  have "last (case_txBytes cs) = 0x8d
          \<and> last (case_txBytes cs) = computePdfChecksum (case_txBytes cs)"
    by (auto simp: volume_base simp del: upto_rec_numeral)
  then show ?thesis using h1 h5 by simp
qed

text \<open>
  Claim C1 as it is written fails when the baseline has drifted from the formula: for a
  \<open>C203\<close> baseline whose bytes 8 to 37 are zero and \<open>v = 50\<close>, \<open>deriveNumericSpecs\<close>
  accepts the row, the synthesized checksum byte is \<open>0x8D\<close>, and \<open>computePdfChecksum\<close>
  of the synthesized request is \<open>0x32\<close>. The engine's self-check reports this with a
  warning and goes on.
\<close>

theorem numeric_synthesis_counterexample:
  "deriveNumericSpecs (bySetCodeOf [volumeRow driftedTemplate]) = Inr [''C203'' \<mapsto> volumeSpec driftedTemplate]
   \<and> (case buildGeneratedNumericCase (volumeSpec driftedTemplate) 50 src_generated of
        Inl _ \<Rightarrow> False
      | Inr cs \<Rightarrow> last (case_txBytes cs) = 0x8d \<and> computePdfChecksum (case_txBytes cs) = 0x32)"
proof -
  have "parseHexBytes driftedTemplate = Inr (replicate 7 85 @ replicate 33 0)" by code_simp
  then have "deriveNumericSpecs (bySetCodeOf [volumeRow driftedTemplate])
              = Inr [''C203'' \<mapsto> volumeSpec driftedTemplate]"
    by (rule volume_derive) simp
  moreover have "(case buildGeneratedNumericCase (volumeSpec driftedTemplate) 50 src_generated of
        Inl _ \<Rightarrow> False
      | Inr cs \<Rightarrow> last (case_txBytes cs) = 0x8d \<and> computePdfChecksum (case_txBytes cs) = 0x32)"
    by code_simp
  ultimately show ?thesis by simp
qed

lemma marker_slice:
  assumes "tailMarkerAt bytes i"
  shows "js_slice bytes (i + 3) (int (length bytes) - 1)
           = take (nat (bytes ! nat (i + 1))) (drop (nat (i + 3)) bytes)"
proof -
  from assms have b: "0 \<le> i" "i \<le> int (length bytes) - 4"
    and e: "i + 3 + bytes ! nat (i + 1) = int (length bytes) - 1"
    by (auto simp: tailMarkerAt_def)
  have "int (length bytes) - 1 - (i + 3) = bytes ! nat (i + 1)" using e by simp
  then show ?thesis using b by (simp add: js_slice_def Let_def min_def)
qed

lemma extractTailPayload_markerList:
  assumes "6 \<le> length bytes"
  shows "extractTailPayload bytes =
           (case markerList bytes of
              [] \<Rightarrow> None
            | i # rest \<Rightarrow>
                Some \<lparr> pd_markerIndex = i, pd_dataLength = bytes ! nat (i + 1),
                       pd_data = js_slice bytes (i + 3) (int (length bytes) - 1),
                       pd_ambiguous = (rest \<noteq> []) \<rparr>)"
  using assms
  by (auto simp: extractTailPayload_def extractTailPayloadTraced_def Let_def
      scanTail_candidates candidateAt_def split: list.splits)

text \<open>
  Claim C3, as amended. For every byte sequence of at least 6 bytes: the candidates
  are the offsets \<open>i\<close> from \<open>max(0, length - 96)\<close> to \<open>length - 4\<close> with the marker
  \<open>00 <len> 00\<close> at \<open>i\<close> and \<open>i + 3 + len = length - 1\<close>; \<open>extractTailPayload\<close> returns
  \<open>null\<close> when there is none, and otherwise selects the greatest one (the first met in
  the backward scan, nearest the tail), returns the \<open>len\<close> bytes after its marker, and
  sets \<open>ambiguous\<close> exactly when there is more than one candidate.
\<close>

theorem extractTailPayload_selects:
  assumes "6 \<le> length bytes"
  shows "extractTailPayload bytes =
           (if tailMarkers bytes = {} then None
            else Some \<lparr> pd_markerIndex = Max (tailMarkers bytes),
                        pd_dataLength = bytes ! nat (Max (tailMarkers bytes) + 1),
                        pd_data = take (nat (bytes ! nat (Max (tailMarkers bytes) + 1)))
                                    (drop (nat (Max (tailMarkers bytes) + 3)) bytes),
                        pd_ambiguous = (card (tailMarkers bytes) > 1) \<rparr>)"
proof (cases "markerList bytes")
  case Nil
  then have "tailMarkers bytes = {}" using set_markerList [of bytes] by simp
  then show ?thesis using Nil assms by (simp add: extractTailPayload_markerList)
next
  case (Cons i rest)
  have ne: "tailMarkers bytes \<noteq> {}" using Cons set_markerList [of bytes] by auto
  have mx: "Max (tailMarkers bytes) = i"
    using hd_descending [OF sorted_rev_markerList, of bytes] Cons set_markerList [of bytes]
    by simp
  have "card (tailMarkers bytes) = length (markerList bytes)"
    using distinct_card [OF distinct_markerList, of bytes] set_markerList [of bytes] by simp
  then have amb: "(card (tailMarkers bytes) > 1) = (rest \<noteq> [])"
    using Cons by (cases rest) auto
  have "i \<in> tailMarkers bytes" using Cons set_markerList [of bytes] by auto
  then have "tailMarkerAt bytes i" by (simp add: tailMarkers_def)
  then have sl: "js_slice bytes (i + 3) (int (length bytes) - 1)
           = take (nat (bytes ! nat (i + 1))) (drop (nat (i + 3)) bytes)"
    by (rule marker_slice)
  show ?thesis
    using assms ne amb by (simp add: extractTailPayload_markerList Cons mx sl)
qed

text \<open>
  The theorem at a 9-byte sequence with two candidates, at offsets 3 and 5.
\<close>

theorem extractTailPayload_selects_witness:
  "6 \<le> length [0, 0, 0, 0, 2, 0, 0, 0, 9 :: int]
   \<and> tailMarkers [0, 0, 0, 0, 2, 0, 0, 0, 9] = {3, 5}
   \<and> extractTailPayload [0, 0, 0, 0, 2, 0, 0, 0, 9]
       = Some \<lparr> pd_markerIndex = 5, pd_dataLength = 0, pd_data = [], pd_ambiguous = True \<rparr>"
proof -
  have m: "markerList [0, 0, 0, 0, 2, 0, 0, 0, 9] = [5, 3]" by code_simp
  have "tailMarkers [0, 0, 0, 0, 2, 0, 0, 0, 9] = set (markerList [0, 0, 0, 0, 2, 0, 0, 0, 9])"
    by (simp only: set_markerList)
  then have t: "tailMarkers [0, 0, 0, 0, 2, 0, 0, 0, 9] = {3, 5}"
    by (auto simp: m)
  have l: "6 \<le> length [0, 0, 0, 0, 2, 0, 0, 0, 9 :: int]" by simp
  show ?thesis
    using extractTailPayload_selects [OF l] by (simp add: t)
qed

text \<open>
  Claim C3 as it is written, for every byte sequence, fails below 6 bytes: the 5-byte
  sequence \<open>00 01 00 07 09\<close> has a candidate at offset 0, inside the scan window, and
  \<open>extractTailPayload\<close> returns \<open>null\<close>.
\<close>

theorem extractTailPayload_short_counterexample:
  "tailMarkerAt [0, 1, 0, 7, 9] 0 \<and> extractTailPayload [0, 1, 0, 7, 9] = None"
  by (simp add: tailMarkerAt_def extractTailPayload_def extractTailPayloadTraced_def)

text \<open>
  Claim C9. A byte sequence shorter than 6 bytes gives \<open>null\<close>, also the 5-byte
  sequences \<open>00 01 00 xx cs\<close>, whose marker at offset 0 meets the length constraint and
  which the scan without the guard would accept. For every byte sequence, each offset
  the scan reads lies inside the sequence. (The function is a definition by a fold over
  a finite list of offsets, hence total.)
\<close>

theorem extractTailPayload_short:
  "(length bytes < 6 \<longrightarrow> extractTailPayload bytes = None)
   \<and> (\<forall>r \<in> set (snd (extractTailPayloadTraced bytes)). 0 \<le> r \<and> r < int (length bytes))
   \<and> tailMarkerAt [0, 1, 0, x, cs] 0
   \<and> scan_candidates (scanTail [0, 1, 0, x, cs]) \<noteq> []
   \<and> extractTailPayload [0, 1, 0, x, cs] = None"
proof -
  have short: "length bytes < 6 \<longrightarrow> extractTailPayload bytes = None"
    by (simp add: extractTailPayload_def extractTailPayloadTraced_def)
  have inb: "\<forall>r \<in> set (snd (extractTailPayloadTraced bytes)). 0 \<le> r \<and> r < int (length bytes)"
    using scanTail_reads [of bytes]
    by (auto simp: extractTailPayloadTraced_def Let_def split: list.splits)
  have mk: "tailMarkerAt [0, 1, 0, x, cs] 0" by (simp add: tailMarkerAt_def)
  then have "0 \<in> set (markerList [0, 1, 0, x, cs])"
    using set_markerList [of "[0, 1, 0, x, cs]"] by (simp add: tailMarkers_def)
  then have cand: "scan_candidates (scanTail [0, 1, 0, x, cs]) \<noteq> []"
    by (auto simp: scanTail_candidates)
  have none: "extractTailPayload [0, 1, 0, x, cs] = None"
    by (simp add: extractTailPayload_def extractTailPayloadTraced_def)
  show ?thesis using short inb mk cand none by blast
qed

text \<open>
  The theorem at \<open>00 01 00 07 09\<close>, and the offsets read on the 6-byte sequence
  \<open>05 00 01 00 07 09\<close>.
\<close>

theorem extractTailPayload_short_witness:
  "length [0, 1, 0, 7, 9 :: int] < 6 \<and> extractTailPayload [0, 1, 0, 7, 9] = None
   \<and> snd (extractTailPayloadTraced [5, 0, 1, 0, 7, 9]) = [2, 1, 3, 2, 4, 0]
   \<and> list_all (\<lambda>r. 0 \<le> r \<and> r < int (length [5, 0, 1, 0, 7, 9 :: int])) [2, 1, 3, 2, 4, 0]"
proof -
  have r: "snd (extractTailPayloadTraced [5, 0, 1, 0, 7, 9]) = [2, 1, 3, 2, 4, 0]" by code_simp
  show ?thesis
    using extractTailPayload_short [of "[0, 1, 0, 7, 9]" 7 9]
          extractTailPayload_short [of "[5, 0, 1, 0, 7, 9]" 7 9]
    by (simp add: r)
qed

section \<open>The policy resolver\<close>

lemma table_has_parser:
  "COMMAND_POLICY_BY_CODE code = Some b \<Longrightarrow> cp_parserCode b \<noteq> None"
  by (auto simp: COMMAND_POLICY_BY_CODE_def policyEntry_def split: if_splits)

text \<open>
  Claim C4, as amended. When the normalized set code of a case is absent from the policy
  table (or the case has no set code), \<open>resolvePolicy\<close> gives \<open>STRICT_EXACT\<close> and, as
  parser selector, the normalized set code itself (\<open>null\<close> only for a case without a
  set code); except that a case whose category and description contain
  \<open>query scene mode\<close> gets \<open>PARSED_RANGE\<close> with the parser \<open>C243\<close>. No note, no
  accepted reply codes, no accept-any flag and no no-reply tolerance come with either.
  For a registered code the table's validation mode, parser selector (every entry has
  one), note, accept-any flag, no-reply tolerance and accepted reply codes are returned.
\<close>

theorem resolvePolicy_resolution:
  "(registeredPolicy caseItem = None \<longrightarrow>
      (if sceneModeText caseItem
       then pol_validationMode (resolvePolicy caseItem profile) = PARSED_RANGE
            \<and> pol_parserCode (resolvePolicy caseItem profile) = Some ''C243''
       else pol_validationMode (resolvePolicy caseItem profile) = STRICT_EXACT
            \<and> pol_parserCode (resolvePolicy caseItem profile) = normalizeCode (case_setCode caseItem))
      \<and> pol_note (resolvePolicy caseItem profile) = None
      \<and> \<not> pol_acceptAnyReplyCode (resolvePolicy caseItem profile)
      \<and> \<not> pol_allowNoReplyQuirk (resolvePolicy caseItem profile)
      \<and> pol_allowedReplyCodes (resolvePolicy caseItem profile) = [])
   \<and> (\<forall>b. registeredPolicy caseItem = Some b \<longrightarrow>
          pol_validationMode (resolvePolicy caseItem profile) = cp_validationMode b
          \<and> pol_parserCode (resolvePolicy caseItem profile) = cp_parserCode b
          \<and> cp_parserCode b \<noteq> None
          \<and> pol_note (resolvePolicy caseItem profile) = cp_note b
          \<and> pol_acceptAnyReplyCode (resolvePolicy caseItem profile) = (cp_acceptAnyReplyCode b = Some True)
          \<and> pol_allowNoReplyQuirk (resolvePolicy caseItem profile) = (cp_allowNoReplyQuirk b = Some True)
          \<and> pol_allowedReplyCodes (resolvePolicy caseItem profile)
                = (case cp_allowedReplyCodes b of Some codes \<Rightarrow> codes | None \<Rightarrow> []))"
proof (intro conjI impI allI)
  fix b
  assume r: "registeredPolicy caseItem = Some b"
  then obtain code where n: "normalizeCode (case_setCode caseItem) = Some code"
    and t: "COMMAND_POLICY_BY_CODE code = Some b"
    by (auto simp: registeredPolicy_def split: option.splits)
  from t show "cp_parserCode b \<noteq> None" by (rule table_has_parser)
  then obtain p where p: "cp_parserCode b = Some p" by auto
  show "pol_validationMode (resolvePolicy caseItem profile) = cp_validationMode b"
    by (simp add: resolvePolicy_def Let_def n t)
  show "pol_parserCode (resolvePolicy caseItem profile) = cp_parserCode b"
    by (simp add: resolvePolicy_def Let_def n t p)
  show "pol_note (resolvePolicy caseItem profile) = cp_note b"
    by (simp add: resolvePolicy_def Let_def n t)
  show "pol_acceptAnyReplyCode (resolvePolicy caseItem profile) = (cp_acceptAnyReplyCode b = Some True)"
    by (simp add: resolvePolicy_def Let_def n t split: option.splits)
  show "pol_allowNoReplyQuirk (resolvePolicy caseItem profile) = (cp_allowNoReplyQuirk b = Some True)"
    by (simp add: resolvePolicy_def Let_def n t split: option.splits)
  show "pol_allowedReplyCodes (resolvePolicy caseItem profile)
                = (case cp_allowedReplyCodes b of Some codes \<Rightarrow> codes | None \<Rightarrow> [])"
    by (simp add: resolvePolicy_def Let_def n t)
next
  assume r: "registeredPolicy caseItem = None"
  then have base: "(case normalizeCode (case_setCode caseItem) of None \<Rightarrow> None
                    | Some c \<Rightarrow> COMMAND_POLICY_BY_CODE c) = None"
    by (simp add: registeredPolicy_def)
  show "if sceneModeText caseItem
       then pol_validationMode (resolvePolicy caseItem profile) = PARSED_RANGE
            \<and> pol_parserCode (resolvePolicy caseItem profile) = Some ''C243''
       else pol_validationMode (resolvePolicy caseItem profile) = STRICT_EXACT
            \<and> pol_parserCode (resolvePolicy caseItem profile) = normalizeCode (case_setCode caseItem)"
    by (simp add: resolvePolicy_def Let_def base sceneModeText_def)
  show "pol_note (resolvePolicy caseItem profile) = None"
    by (simp add: resolvePolicy_def Let_def base)
  show "\<not> pol_acceptAnyReplyCode (resolvePolicy caseItem profile)"
    by (simp add: resolvePolicy_def Let_def base)
  show "\<not> pol_allowNoReplyQuirk (resolvePolicy caseItem profile)"
    by (simp add: resolvePolicy_def Let_def base)
  show "pol_allowedReplyCodes (resolvePolicy caseItem profile) = []"
    by (simp add: resolvePolicy_def Let_def base)
qed

text \<open>
  The theorem at three cases built from truth rows: an unregistered set command
  (\<open>0xC213\<close>), an unregistered \<open>Query scene mode\<close> row, and the registered \<open>0xC131\<close>.
\<close>

theorem resolvePolicy_resolution_witness:
  "(case buildCaseFromTruthRow
           (exampleRow ''Set video source'' ''HDMI1'' (Some ''0xC213'') (Some ''0xC214'') None) src_truth of
      Inl _ \<Rightarrow> False
    | Inr c \<Rightarrow> registeredPolicy c = None \<and> \<not> sceneModeText c
               \<and> pol_validationMode (resolvePolicy c exview_aio) = STRICT_EXACT
               \<and> pol_parserCode (resolvePolicy c exview_aio) = Some ''C213'')
   \<and> (case buildCaseFromTruthRow
           (exampleRow ''Query scene mode'' ''Scene'' (Some ''0xC245'') None None) src_truth of
      Inl _ \<Rightarrow> False
    | Inr c \<Rightarrow> registeredPolicy c = None \<and> sceneModeText c
               \<and> pol_validationMode (resolvePolicy c exview_aio) = PARSED_RANGE
               \<and> pol_parserCode (resolvePolicy c exview_aio) = Some ''C243'')
   \<and> (case buildCaseFromTruthRow
           (exampleRow ''Query screen monitoring'' ''Monitoring'' (Some ''0xC131'') None None) src_truth of
      Inl _ \<Rightarrow> False
    | Inr c \<Rightarrow> registeredPolicy c \<noteq> None
               \<and> pol_validationMode (resolvePolicy c exview_aio) = STRUCTURE_ONLY
               \<and> pol_parserCode (resolvePolicy c exview_aio) = Some ''C131''
               \<and> pol_acceptAnyReplyCode (resolvePolicy c exview_aio)
               \<and> pol_allowedReplyCodes (resolvePolicy c exview_aio) = [''C332''])"
proof -
  have "(case buildCaseFromTruthRow
           (exampleRow ''Set video source'' ''HDMI1'' (Some ''0xC213'') (Some ''0xC214'') None) src_truth of
      Inl _ \<Rightarrow> False
    | Inr c \<Rightarrow> registeredPolicy c = None \<and> \<not> sceneModeText c
               \<and> normalizeCode (case_setCode c) = Some ''C213'')"
    by code_simp
  then obtain c1 where
    b1: "buildCaseFromTruthRow
           (exampleRow ''Set video source'' ''HDMI1'' (Some ''0xC213'') (Some ''0xC214'') None) src_truth
         = Inr c1"
    and f1: "registeredPolicy c1 = None" "\<not> sceneModeText c1"
            "normalizeCode (case_setCode c1) = Some ''C213''"
    by (auto split: sum.splits)
  have "(case buildCaseFromTruthRow
           (exampleRow ''Query scene mode'' ''Scene'' (Some ''0xC245'') None None) src_truth of
      Inl _ \<Rightarrow> False
    | Inr c \<Rightarrow> registeredPolicy c = None \<and> sceneModeText c)"
    by code_simp
  then obtain c2 where
    b2: "buildCaseFromTruthRow
           (exampleRow ''Query scene mode'' ''Scene'' (Some ''0xC245'') None None) src_truth = Inr c2"
    and f2: "registeredPolicy c2 = None" "sceneModeText c2"
    by (auto split: sum.splits)
  have "(case buildCaseFromTruthRow
           (exampleRow ''Query screen monitoring'' ''Monitoring'' (Some ''0xC131'') None None) src_truth of
      Inl _ \<Rightarrow> False
    | Inr c \<Rightarrow> registeredPolicy c =
        Some ((policyEntry STRUCTURE_ONLY ''C131'')
                \<lparr> cp_acceptAnyReplyCode := Some True, cp_allowedReplyCodes := Some [''C332''] \<rparr>))"
    by code_simp
  then obtain c3 where
    b3: "buildCaseFromTruthRow
           (exampleRow ''Query screen monitoring'' ''Monitoring'' (Some ''0xC131'') None None) src_truth
         = Inr c3"
    and f3: "registeredPolicy c3 =
        Some ((policyEntry STRUCTURE_ONLY ''C131'')
                \<lparr> cp_acceptAnyReplyCode := Some True, cp_allowedReplyCodes := Some [''C332''] \<rparr>)"
    by (auto split: sum.splits)
  show ?thesis
    using resolvePolicy_resolution [of c1 exview_aio] resolvePolicy_resolution [of c2 exview_aio]
          resolvePolicy_resolution [of c3 exview_aio]
    by (simp add: b1 b2 b3 f1 f2 f3 policyEntry_def)
qed

text \<open>
  Claim C4 as it is written (fallback "with no parser") fails: for a case with the
  unregistered set code \<open>0xC213\<close> the resolved parser selector is \<open>C213\<close>, not \<open>null\<close>.
\<close>

theorem resolvePolicy_parser_counterexample:
  "(case buildCaseFromTruthRow
           (exampleRow ''Set video source'' ''HDMI1'' (Some ''0xC213'') (Some ''0xC214'') None) src_truth of
      Inl _ \<Rightarrow> False
    | Inr c \<Rightarrow> normalizeCode (case_setCode c) = Some ''C213''
               \<and> COMMAND_POLICY_BY_CODE ''C213'' = None
               \<and> pol_validationMode (resolvePolicy c exview_aio) = STRICT_EXACT
               \<and> pol_parserCode (resolvePolicy c exview_aio) = Some ''C213'')"
  by code_simp

section \<open>Classifying a reply\<close>

lemma equalBytes_iff: "equalBytes a b \<longleftrightarrow> a = b"
proof -
  have "equalBytes a b \<longleftrightarrow> length a = length b \<and> (\<forall>i < length a. a ! i = b ! i)"
    by (auto simp: equalBytes_def list_all_iff)
  also have "\<dots> \<longleftrightarrow> a = b"
    by (rule list_eq_iff_nth_eq [symmetric])
  finally show ?thesis .
qed

lemma butlast_eq_iff:
  assumes "length a = length b"
  shows "butlast a = butlast b \<longleftrightarrow> (\<forall>i < length a - 1. a ! i = b ! i)"
proof -
  have "butlast a = butlast b \<longleftrightarrow>
          length (butlast a) = length (butlast b)
          \<and> (\<forall>i < length (butlast a). butlast a ! i = butlast b ! i)"
    by (rule list_eq_iff_nth_eq)
  also have "\<dots> \<longleftrightarrow> (\<forall>i < length a - 1. a ! i = b ! i)"
    using assms by (auto simp: nth_butlast)
  finally show ?thesis .
qed

lemma equalIgnoringChecksum_iff: "equalIgnoringChecksum a b \<longleftrightarrow> differsOnlyInChecksum a b"
proof (cases "length a = length b \<and> a \<noteq> []")
  case True
  then have "butlast a = butlast b \<longleftrightarrow> (\<forall>i < length a - 1. a ! i = b ! i)"
    by (simp add: butlast_eq_iff)
  then show ?thesis
    using True by (auto simp: equalIgnoringChecksum_def differsOnlyInChecksum_def list_all_iff)
next
  case False
  then show ?thesis
    by (auto simp: equalIgnoringChecksum_def differsOnlyInChecksum_def)
qed

lemma parseAckStatus_success:
  "parseAckStatus (Some (decodeReply rx)) = Some 0x0001 \<longleftrightarrow> statusWordSuccess rx"
  by (auto simp: parseAckStatus_def decodeReply_def statusWordSuccess_def split: option.splits)

lemma setOutcome_fields:
  "rec_status (setOutcome r s m) = s" "rec_matchType (setOutcome r s m) = m"
  by (simp_all add: setOutcome_def)

lemma decodeReplyCode_not_found:
  assumes "\<forall>i. 8 \<le> i \<and> i \<le> min (int (length rx) - 3) 40 \<longrightarrow> rx ! nat i \<noteq> 0xd0"
  shows "decodeReplyCode rx = (None, None)"
proof -
  have "\<not> (\<exists>index \<in> set [8 .. min (int (length rx) - 3) 40]. js_nth rx index = Some 0xd0)"
    using assms by (auto simp: js_nth_def)
  then have "List.find (\<lambda>index. js_nth rx index = Some 0xd0) [8 .. min (int (length rx) - 3) 40] = None"
    by (simp add: find_None_iff)
  then show ?thesis by (simp add: decodeReplyCode_def Let_def)
qed

lemma not_accepted_without_code:
  "isReplyCodeAccepted expected None allowed \<longleftrightarrow> acceptedReplyCodes expected allowed = []"
  by (simp add: isReplyCodeAccepted_def Let_def)

lemma classify_code_mismatch:
  assumes "pol_validationMode (resolvePolicy caseItem (opt_profile options)) \<noteq> EXPECTED_NO_REPLY"
    and "\<not> replyCodeAccepted caseItem options rx"
  shows "classifyReply caseItem options (Some rx)
           = setOutcome (makeBaseRecord caseItem (resolvePolicy caseItem (opt_profile options)) (Some rx))
               FAIL ''REPLY_CODE_MISMATCH''"
  using assms by (simp add: classifyReply_def Let_def replyCodeAccepted_def decodeReply_def)

lemma classify_strict:
  assumes "pol_validationMode (resolvePolicy caseItem (opt_profile options)) = STRICT_EXACT"
    and "replyCodeAccepted caseItem options rx"
  shows "rec_status (classifyReply caseItem options (Some rx))
           = (if case_expectedReplyBytes caseItem = Some rx
                 \<or> (\<exists>expected. case_expectedReplyBytes caseItem = Some expected
                        \<and> differsOnlyInChecksum expected rx)
                 \<or> statusWordSuccess rx
                 \<or> case_expectedReplyBytes caseItem = None
              then PASS else FAIL)"
proof -
  have acc: "\<not> (\<not> pol_acceptAnyReplyCode (resolvePolicy caseItem (opt_profile options))
      \<and> \<not> isReplyCodeAccepted (case_replyCode caseItem) (rd_replyCode (decodeReply rx))
           (pol_allowedReplyCodes (resolvePolicy caseItem (opt_profile options))))"
    using assms(2) by (auto simp: replyCodeAccepted_def decodeReply_def)
  show ?thesis
  proof (cases "case_expectedReplyBytes caseItem")
    case None
    then show ?thesis
      using assms(1) acc
      by (auto simp: classifyReply_def Let_def setOutcome_fields parseAckStatus_success)
  next
    case (Some expected)
    then show ?thesis
      using assms(1) acc
      by (auto simp: classifyReply_def Let_def setOutcome_fields parseAckStatus_success
          equalBytes_iff equalIgnoringChecksum_iff)
  qed
qed

text \<open>
  Claim C2. For a case resolved to \<open>STRICT_EXACT\<close>, with a reply received and its reply
  code accepted: the status is \<open>PASS\<close> exactly when the reply equals the expected
  template, or has the template's length and differs from it at most in the last byte,
  or the decoded payload starts with the little-endian status word \<open>0x0001\<close>, or the
  case has no expected template; otherwise it is \<open>FAIL\<close>. In particular a reply that
  differs from a template only in its final byte passes.
\<close>

theorem strict_exact_outcome:
  assumes "pol_validationMode (resolvePolicy caseItem (opt_profile options)) = STRICT_EXACT"
    and "replyCodeAccepted caseItem options rx"
  shows "(rec_status (classifyReply caseItem options (Some rx)) = PASS \<longleftrightarrow>
            case_expectedReplyBytes caseItem = Some rx
            \<or> (\<exists>expected. case_expectedReplyBytes caseItem = Some expected
                   \<and> differsOnlyInChecksum expected rx)
            \<or> statusWordSuccess rx
            \<or> case_expectedReplyBytes caseItem = None)
         \<and> (rec_status (classifyReply caseItem options (Some rx)) \<noteq> PASS \<longrightarrow>
              rec_status (classifyReply caseItem options (Some rx)) = FAIL)
         \<and> (\<forall>body cs cs'. case_expectedReplyBytes caseItem = Some (body @ [cs]) \<and> rx = body @ [cs']
              \<longrightarrow> rec_status (classifyReply caseItem options (Some rx)) = PASS)"
proof -
  note st = classify_strict [OF assms]
  have a: "rec_status (classifyReply caseItem options (Some rx)) = PASS \<longleftrightarrow>
            case_expectedReplyBytes caseItem = Some rx
            \<or> (\<exists>expected. case_expectedReplyBytes caseItem = Some expected
                   \<and> differsOnlyInChecksum expected rx)
            \<or> statusWordSuccess rx
            \<or> case_expectedReplyBytes caseItem = None"
    unfolding st by simp
  have b: "rec_status (classifyReply caseItem options (Some rx)) \<noteq> PASS \<longrightarrow>
              rec_status (classifyReply caseItem options (Some rx)) = FAIL"
    unfolding st by simp
  have c: "\<forall>body cs cs'. case_expectedReplyBytes caseItem = Some (body @ [cs]) \<and> rx = body @ [cs']
              \<longrightarrow> rec_status (classifyReply caseItem options (Some rx)) = PASS"
  proof (intro allI impI)
    fix body cs cs'
    assume h: "case_expectedReplyBytes caseItem = Some (body @ [cs]) \<and> rx = body @ [cs']"
    then have "differsOnlyInChecksum (body @ [cs]) rx"
      by (simp add: differsOnlyInChecksum_def)
    then show "rec_status (classifyReply caseItem options (Some rx)) = PASS"
      using h a by blast
  qed
  show ?thesis using a b c by blast
qed

text \<open>
  The theorem at a case built from a truth row with a reply template: a reply that
  differs in the checksum byte only passes, a reply that differs in a payload byte fails.
\<close>

theorem strict_exact_outcome_witness:
  "(case buildCaseFromTruthRow
           (exampleRow ''Set video source'' ''HDMI1'' (Some ''0xC213'') (Some ''0xC214'') (Some ackTemplate))
           src_truth of
      Inl _ \<Rightarrow> False
    | Inr c \<Rightarrow>
        pol_validationMode (resolvePolicy c (opt_profile (exampleOptions mode_single))) = STRICT_EXACT
        \<and> case_expectedReplyBytes c = Some [85, 85, 85, 85, 85, 85, 85, 0, 208, 20, 194, 0, 2, 0, 0, 168]
        \<and> replyCodeAccepted c (exampleOptions mode_single)
              [85, 85, 85, 85, 85, 85, 85, 0, 208, 20, 194, 0, 2, 0, 0, 169]
        \<and> rec_status (classifyReply c (exampleOptions mode_single)
              (Some [85, 85, 85, 85, 85, 85, 85, 0, 208, 20, 194, 0, 2, 0, 0, 169])) = PASS
        \<and> replyCodeAccepted c (exampleOptions mode_single)
              [85, 85, 85, 85, 85, 85, 85, 0, 208, 20, 194, 0, 2, 0, 7, 168]
        \<and> rec_status (classifyReply c (exampleOptions mode_single)
              (Some [85, 85, 85, 85, 85, 85, 85, 0, 208, 20, 194, 0, 2, 0, 7, 168])) = FAIL)"
proof -
  let ?o = "exampleOptions mode_single"
  let ?e = "[85, 85, 85, 85, 85, 85, 85, 0, 208, 20, 194, 0, 2, 0, 0, 168 :: int]"
  let ?rx = "[85, 85, 85, 85, 85, 85, 85, 0, 208, 20, 194, 0, 2, 0, 0, 169 :: int]"
  let ?bad = "[85, 85, 85, 85, 85, 85, 85, 0, 208, 20, 194, 0, 2, 0, 7, 168 :: int]"
  have "(case buildCaseFromTruthRow
           (exampleRow ''Set video source'' ''HDMI1'' (Some ''0xC213'') (Some ''0xC214'') (Some ackTemplate))
           src_truth of
      Inl _ \<Rightarrow> False
    | Inr c \<Rightarrow>
        pol_validationMode (resolvePolicy c (opt_profile ?o)) = STRICT_EXACT
        \<and> case_expectedReplyBytes c = Some ?e
        \<and> replyCodeAccepted c ?o ?rx \<and> replyCodeAccepted c ?o ?bad)"
    by code_simp
  then obtain c where
    b: "buildCaseFromTruthRow
           (exampleRow ''Set video source'' ''HDMI1'' (Some ''0xC213'') (Some ''0xC214'') (Some ackTemplate))
           src_truth = Inr c"
    and m: "pol_validationMode (resolvePolicy c (opt_profile ?o)) = STRICT_EXACT"
    and e: "case_expectedReplyBytes c = Some ?e"
    and a1: "replyCodeAccepted c ?o ?rx" and a2: "replyCodeAccepted c ?o ?bad"
    by (auto split: sum.splits)
  have d1: "differsOnlyInChecksum ?e ?rx" by (simp add: differsOnlyInChecksum_def)
  have d2: "\<not> differsOnlyInChecksum ?e ?bad" by (simp add: differsOnlyInChecksum_def)
  have s2: "\<not> statusWordSuccess ?bad" by code_simp
  have p: "rec_status (classifyReply c ?o (Some ?rx)) = PASS"
    using strict_exact_outcome [OF m a1] e d1 by simp
  have f: "rec_status (classifyReply c ?o (Some ?bad)) = FAIL"
    using strict_exact_outcome [OF m a2] e d2 s2 by simp
  show ?thesis using b m e a1 a2 p f by simp
qed

text \<open>
  Claim C5, as amended. When no byte \<open>0xD0\<close> stands at an offset in
  \<open>8..min(length - 3, 40)\<close> of a received reply, \<open>decodeReplyCode\<close> returns not-found
  (a value, not an exception), and every case whose validation mode is not
  \<open>EXPECTED_NO_REPLY\<close> and whose policy requires a reply-code match (a non-empty set
  of accepted reply codes, no accept-any flag) is classified \<open>FAIL\<close> with match type
  \<open>REPLY_CODE_MISMATCH\<close>.
\<close>

theorem reply_code_not_found:
  assumes "\<forall>i. 8 \<le> i \<and> i \<le> min (int (length rx) - 3) 40 \<longrightarrow> rx ! nat i \<noteq> 0xd0"
  shows "decodeReplyCode rx = (None, None)
         \<and> (pol_validationMode (resolvePolicy caseItem (opt_profile options)) \<noteq> EXPECTED_NO_REPLY
              \<and> \<not> pol_acceptAnyReplyCode (resolvePolicy caseItem (opt_profile options))
              \<and> acceptedReplyCodes (case_replyCode caseItem)
                    (pol_allowedReplyCodes (resolvePolicy caseItem (opt_profile options))) \<noteq> []
              \<longrightarrow> rec_status (classifyReply caseItem options (Some rx)) = FAIL
                  \<and> rec_matchType (classifyReply caseItem options (Some rx)) = ''REPLY_CODE_MISMATCH'')"
proof -
  have nf: "decodeReplyCode rx = (None, None)"
    using assms by (rule decodeReplyCode_not_found)
  {
    assume m: "pol_validationMode (resolvePolicy caseItem (opt_profile options)) \<noteq> EXPECTED_NO_REPLY"
      and a: "\<not> pol_acceptAnyReplyCode (resolvePolicy caseItem (opt_profile options))"
      and s: "acceptedReplyCodes (case_replyCode caseItem)
                    (pol_allowedReplyCodes (resolvePolicy caseItem (opt_profile options))) \<noteq> []"
    have "\<not> replyCodeAccepted caseItem options rx"
      using a s by (simp add: replyCodeAccepted_def nf not_accepted_without_code)
    with m have "classifyReply caseItem options (Some rx)
           = setOutcome (makeBaseRecord caseItem (resolvePolicy caseItem (opt_profile options)) (Some rx))
               FAIL ''REPLY_CODE_MISMATCH''"
      by (rule classify_code_mismatch)
    then have "rec_status (classifyReply caseItem options (Some rx)) = FAIL
                  \<and> rec_matchType (classifyReply caseItem options (Some rx)) = ''REPLY_CODE_MISMATCH''"
      by (simp add: setOutcome_fields)
  }
  then show ?thesis using nf by blast
qed

lemma no_marker_example:
  "\<forall>i. 8 \<le> i \<and> i \<le> min (int (length [85, 85, 85, 85, 85, 85, 85, 0, 1, 0, 0, 1 :: int]) - 3) 40
       \<longrightarrow> [85, 85, 85, 85, 85, 85, 85, 0, 1, 0, 0, 1 :: int] ! nat i \<noteq> 0xd0"
proof (intro allI impI)
  fix i :: int
  assume "8 \<le> i \<and> i \<le> min (int (length [85, 85, 85, 85, 85, 85, 85, 0, 1, 0, 0, 1 :: int]) - 3) 40"
  then have "i = 8 \<or> i = 9" by auto
  then show "[85, 85, 85, 85, 85, 85, 85, 0, 1, 0, 0, 1 :: int] ! nat i \<noteq> 0xd0" by auto
qed

text \<open>
  The theorem at a 12-byte reply without marker, for a case that expects \<open>0xC214\<close>.
\<close>

theorem reply_code_not_found_witness:
  "decodeReplyCode [85, 85, 85, 85, 85, 85, 85, 0, 1, 0, 0, 1] = (None, None)
   \<and> (case buildCaseFromTruthRow
           (exampleRow ''Set video source'' ''HDMI1'' (Some ''0xC213'') (Some ''0xC214'') None) src_truth of
        Inl _ \<Rightarrow> False
      | Inr c \<Rightarrow>
          pol_validationMode (resolvePolicy c (opt_profile (exampleOptions mode_single))) = STRICT_EXACT
          \<and> \<not> pol_acceptAnyReplyCode (resolvePolicy c (opt_profile (exampleOptions mode_single)))
          \<and> acceptedReplyCodes (case_replyCode c)
                (pol_allowedReplyCodes (resolvePolicy c (opt_profile (exampleOptions mode_single))))
              = [''C214'']
          \<and> rec_status (classifyReply c (exampleOptions mode_single)
                (Some [85, 85, 85, 85, 85, 85, 85, 0, 1, 0, 0, 1])) = FAIL
          \<and> rec_matchType (classifyReply c (exampleOptions mode_single)
                (Some [85, 85, 85, 85, 85, 85, 85, 0, 1, 0, 0, 1])) = ''REPLY_CODE_MISMATCH'')"
proof -
  let ?o = "exampleOptions mode_single"
  have "(case buildCaseFromTruthRow
           (exampleRow ''Set video source'' ''HDMI1'' (Some ''0xC213'') (Some ''0xC214'') None) src_truth of
        Inl _ \<Rightarrow> False
      | Inr c \<Rightarrow>
          pol_validationMode (resolvePolicy c (opt_profile ?o)) = STRICT_EXACT
          \<and> \<not> pol_acceptAnyReplyCode (resolvePolicy c (opt_profile ?o))
          \<and> acceptedReplyCodes (case_replyCode c) (pol_allowedReplyCodes (resolvePolicy c (opt_profile ?o)))
              = [''C214''])"
    by code_simp
  then obtain c where
    b: "buildCaseFromTruthRow
           (exampleRow ''Set video source'' ''HDMI1'' (Some ''0xC213'') (Some ''0xC214'') None) src_truth
        = Inr c"
    and m: "pol_validationMode (resolvePolicy c (opt_profile ?o)) = STRICT_EXACT"
    and a: "\<not> pol_acceptAnyReplyCode (resolvePolicy c (opt_profile ?o))"
    and s: "acceptedReplyCodes (case_replyCode c) (pol_allowedReplyCodes (resolvePolicy c (opt_profile ?o)))
              = [''C214'']"
    by (auto split: sum.splits)
  show ?thesis
    using reply_code_not_found [OF no_marker_example, of c ?o] b m a s by simp
qed

text \<open>
  Claim C5 as it is written fails under \<open>EXPECTED_NO_REPLY\<close>, which is decided before
  the reply code is looked at: a \<open>0xC005\<close> case that expects the reply code \<open>0xC006\<close>
  and receives a reply without marker is \<open>PASS\<close> with match type
  \<open>EXPECTED_NO_REPLY_WITH_REPLY\<close>.
\<close>

theorem reply_code_expected_no_reply_counterexample:
  "decodeReplyCode [85, 85, 85, 85, 85, 85, 85, 0, 1, 0, 0, 1] = (None, None)
   \<and> (case buildCaseFromTruthRow
           (exampleRow ''Set sleep'' ''Sleep'' (Some ''0xC005'') (Some ''0xC006'') None) src_truth of
        Inl _ \<Rightarrow> False
      | Inr c \<Rightarrow>
          \<not> pol_acceptAnyReplyCode (resolvePolicy c (opt_profile (exampleOptions mode_single)))
          \<and> acceptedReplyCodes (case_replyCode c)
                (pol_allowedReplyCodes (resolvePolicy c (opt_profile (exampleOptions mode_single))))
              = [''C006'']
          \<and> rec_status (classifyReply c (exampleOptions mode_single)
                (Some [85, 85, 85, 85, 85, 85, 85, 0, 1, 0, 0, 1])) = PASS
          \<and> rec_matchType (classifyReply c (exampleOptions mode_single)
                (Some [85, 85, 85, 85, 85, 85, 85, 0, 1, 0, 0, 1])) = ''EXPECTED_NO_REPLY_WITH_REPLY'')"
  by code_simp

section \<open>Suite exclusions in the run loop\<close>

lemma addExclusion_nonempty:
  assumes "\<forall>c r. m c = Some r \<longrightarrow> r \<noteq> []"
  shows "\<forall>c r. addExclusion m item c = Some r \<longrightarrow> r \<noteq> []"
  using assms by (auto simp: addExclusion_def Let_def split: option.splits if_splits)

lemma foldl_addExclusion_nonempty:
  assumes "\<forall>c r. m c = Some r \<longrightarrow> r \<noteq> []"
  shows "\<forall>c r. foldl addExclusion m items c = Some r \<longrightarrow> r \<noteq> []"
  using assms
proof (induction items arbitrary: m)
  case Nil
  then show ?case by simp
next
  case (Cons item items)
  have "\<forall>c r. addExclusion m item c = Some r \<longrightarrow> r \<noteq> []"
    using Cons.prems by (rule addExclusion_nonempty)
  then show ?case using Cons.IH by simp
qed

lemma loadSuiteExclusions_nonempty:
  "loadSuiteExclusions profile file code = Some reason \<Longrightarrow> reason \<noteq> []"
  using foldl_addExclusion_nonempty [of Map.empty]
  by (auto simp: loadSuiteExclusions_def split: if_splits option.splits)

lemma buildSkippedRecord_fields:
  "rec_status (buildSkippedRecord caseItem reason) = SKIPPED"
  "rec_skipReason (buildSkippedRecord caseItem reason) = Some reason"
  "rec_matchType (buildSkippedRecord caseItem reason) = ''SKIPPED''"
  "rec_rxHex (buildSkippedRecord caseItem reason) = None"
  by (simp_all add: buildSkippedRecord_def)

text \<open>
  Claim C7, as amended. In suite mode, for a case whose normalized set code has a reason
  in the profile's exclusion map, the turn of the run loop appends one record with status
  \<open>SKIPPED\<close> and sends nothing. Its \<open>skipReason\<close> is the exclusion's reason unless one
  of the two earlier guards of the loop has already skipped the case: a power command
  without \<open>--include-power\<close>, or a serial-only case, is skipped with that guard's own
  reason.
\<close>

theorem suite_exclusion_skips:
  assumes "opt_mode options = mode_suite"
    and "normalizeCode (case_setCode caseItem) = Some code"
    and "loadSuiteExclusions (opt_profile options) file code = Some reason"
  shows "runCase net options (loadSuiteExclusions (opt_profile options) file) st caseItem
           = st\<lparr> run_records := run_records st
                    @ [buildSkippedRecord caseItem (skipReasonFor caseItem options reason)] \<rparr>
         \<and> run_transmitted
              (runCase net options (loadSuiteExclusions (opt_profile options) file) st caseItem)
             = run_transmitted st
         \<and> rec_status (buildSkippedRecord caseItem (skipReasonFor caseItem options reason)) = SKIPPED
         \<and> (\<not> (case_isPowerCommand caseItem \<and> \<not> opt_includePower options)
              \<and> \<not> case_serialOnly caseItem
              \<longrightarrow> rec_skipReason (buildSkippedRecord caseItem (skipReasonFor caseItem options reason))
                    = Some reason)"
proof -
  have ne: "reason \<noteq> []" using assms(3) by (rule loadSuiteExclusions_nonempty)
  have step: "runCase net options (loadSuiteExclusions (opt_profile options) file) st caseItem
           = st\<lparr> run_records := run_records st
                    @ [buildSkippedRecord caseItem (skipReasonFor caseItem options reason)] \<rparr>"
    using assms ne by (simp add: runCase_def skipReasonFor_def)
  show ?thesis
    unfolding step by (simp add: buildSkippedRecord_fields skipReasonFor_def)
qed

text \<open>
  The theorem at the profile exclusion of \<open>0xC131\<close> with reason \<open>disabled\<close>.
\<close>

theorem suite_exclusion_skips_witness:
  "opt_mode (exampleOptions mode_suite) = mode_suite
   \<and> loadSuiteExclusions (opt_profile (exampleOptions mode_suite)) (Some disabledMonitoring) ''C131''
       = Some ''disabled''
   \<and> (case buildCaseFromTruthRow
           (exampleRow ''Query screen monitoring'' ''Monitoring'' (Some ''0xC131'') None None) src_truth of
        Inl _ \<Rightarrow> False
      | Inr c \<Rightarrow>
          normalizeCode (case_setCode c) = Some ''C131''
          \<and> \<not> case_isPowerCommand c \<and> \<not> case_serialOnly c
          \<and> map rec_status (run_records (runCase silentNetwork (exampleOptions mode_suite)
                (loadSuiteExclusions (opt_profile (exampleOptions mode_suite)) (Some disabledMonitoring))
                emptyRun c)) = [SKIPPED]
          \<and> map rec_skipReason (run_records (runCase silentNetwork (exampleOptions mode_suite)
                (loadSuiteExclusions (opt_profile (exampleOptions mode_suite)) (Some disabledMonitoring))
                emptyRun c)) = [Some ''disabled'']
          \<and> run_transmitted (runCase silentNetwork (exampleOptions mode_suite)
                (loadSuiteExclusions (opt_profile (exampleOptions mode_suite)) (Some disabledMonitoring))
                emptyRun c) = [])"
proof -
  let ?o = "exampleOptions mode_suite"
  have m: "opt_mode ?o = mode_suite" by (simp add: exampleOptions_def)
  have l: "loadSuiteExclusions (opt_profile ?o) (Some disabledMonitoring) ''C131'' = Some ''disabled''"
    by code_simp
  have "(case buildCaseFromTruthRow
           (exampleRow ''Query screen monitoring'' ''Monitoring'' (Some ''0xC131'') None None) src_truth of
        Inl _ \<Rightarrow> False
      | Inr c \<Rightarrow> normalizeCode (case_setCode c) = Some ''C131''
          \<and> \<not> case_isPowerCommand c \<and> \<not> case_serialOnly c)"
    by code_simp
  then obtain c where
    b: "buildCaseFromTruthRow
           (exampleRow ''Query screen monitoring'' ''Monitoring'' (Some ''0xC131'') None None) src_truth
        = Inr c"
    and n: "normalizeCode (case_setCode c) = Some ''C131''"
    and f: "\<not> case_isPowerCommand c" "\<not> case_serialOnly c"
    by (auto split: sum.splits)
  show ?thesis
    using suite_exclusion_skips [OF m n l, of silentNetwork emptyRun] b m l n f
    by (simp add: emptyRun_def buildSkippedRecord_fields skipReasonFor_def)
qed

text \<open>
  Claim C7 as it is written (\<open>skipReason\<close> equal to the exclusion's reason for every
  excluded case) fails for a serial-only case: it is skipped by the earlier guard, with the
  reason \<open>Serial-only or non-UDP request frame\<close>.
\<close>

theorem suite_exclusion_serial_counterexample:
  "loadSuiteExclusions exview_aio (Some disabledMonitoring) ''C131'' = Some ''disabled''
   \<and> (case buildCaseFromTruthRow
           ((exampleRow ''Query screen monitoring'' ''Monitoring'' (Some ''0xC131'') None None)
              \<lparr> row_transport := Some ''SERIAL'' \<rparr>) src_truth of
        Inl _ \<Rightarrow> False
      | Inr c \<Rightarrow>
          normalizeCode (case_setCode c) = Some ''C131''
          \<and> map rec_status (run_records (runCase silentNetwork (exampleOptions mode_suite)
                (loadSuiteExclusions exview_aio (Some disabledMonitoring)) emptyRun c)) = [SKIPPED]
          \<and> map rec_skipReason (run_records (runCase silentNetwork (exampleOptions mode_suite)
                (loadSuiteExclusions exview_aio (Some disabledMonitoring)) emptyRun c))
              = [Some ''Serial-only or non-UDP request frame''])"
  by code_simp

section \<open>The HDMI presence parsers\<close>

lemma lastByIndex_mem: "lastByIndex first rest \<in> set (first # rest)"
proof -
  have "foldl (\<lambda>best item. if cand_index item > cand_index best then item else best) a xs
          \<in> set (a # xs)" for a xs
  proof (induction xs arbitrary: a)
    case Nil
    then show ?case by simp
  next
    case (Cons x xs)
    show ?case using Cons.IH [of "if cand_index x > cand_index a then x else a"]
      by (auto split: if_splits)
  qed
  then show ?thesis by (simp add: lastByIndex_def)
qed

lemma lastByIndex_pool: "pool \<noteq> [] \<Longrightarrow> lastByIndex (hd pool) (tl pool) \<in> set pool"
  using lastByIndex_mem [of "hd pool" "tl pool"] by simp

lemma hdmiMatchAt_Some:
  assumes "hdmiMatchAt bytes i = Some c"
  shows "cand_index c = i"
    and "i + 3 + cand_length c = int (length bytes) - 1"
    and "cand_data c = js_slice bytes (i + 3) (int (length bytes) - 1)"
proof -
  define len where "len = push_bit 8 (bytes ! nat i) OR bytes ! nat (i + 1)"
  from assms have e: "i + 3 + len = int (length bytes) - 1"
    and c: "c = \<lparr> cand_index = i, cand_length = len,
                    cand_data = js_slice bytes (i + 3) (i + 3 + len) \<rparr>"
    by (auto simp: hdmiMatchAt_def Let_def len_def split: if_splits)
  show "cand_index c = i" by (simp add: c)
  show "i + 3 + cand_length c = int (length bytes) - 1" using e by (simp add: c)
  show "cand_data c = js_slice bytes (i + 3) (int (length bytes) - 1)"
    by (simp only: c e TailCandidate.simps)
qed

lemma hdmi_matches_mem:
  "c \<in> set (List.map_filter (hdmiMatchAt bytes) [0 .. int (length bytes) - 4])
     \<longleftrightarrow> (\<exists>i. 0 \<le> i \<and> i \<le> int (length bytes) - 4 \<and> hdmiMatchAt bytes i = Some c)"
  by (force simp: List.map_filter_def image_iff)

lemma hdmi_selected:
  assumes m: "hdmiMatchAt bytes k = Some m" and k: "0 \<le> k" "k \<le> int (length bytes) - 4"
    and four: "cand_length m = 4"
  shows "parseHdmiPresenceFromFrame bytes =
           (if hdmiFlagsValid (cand_data m) then hdmiFrameResult (cand_data m)
            else failedParse (Some [(''payload'', PNums (cand_data m))]))"
proof -
  define matches where "matches = List.map_filter (hdmiMatchAt bytes) [0 .. int (length bytes) - 4]"
  define len4 where "len4 = filter (\<lambda>item. cand_length item = 4) matches"
  define pool where "pool = (if len4 \<noteq> [] then len4 else matches)"
  define selected where "selected = lastByIndex (hd pool) (tl pool)"
  have mm: "m \<in> set matches"
    unfolding matches_def hdmi_matches_mem using m k by blast
  then have m4: "m \<in> set len4" using four by (simp add: len4_def)
  then have pool: "pool = len4" "pool \<noteq> []" by (auto simp: pool_def)
  have "selected \<in> set len4"
    using lastByIndex_pool [OF pool(2)] pool(1) by (simp add: selected_def)
  then have s4: "cand_length selected = 4" and sm: "selected \<in> set matches"
    by (auto simp: len4_def)
  from sm obtain i where i: "hdmiMatchAt bytes i = Some selected"
    unfolding matches_def hdmi_matches_mem by blast
  have "i = k"
    using hdmiMatchAt_Some(2) [OF i] hdmiMatchAt_Some(2) [OF m] s4 four by simp
  then have sel: "selected = m" using i m by simp
  have ne: "matches \<noteq> []" using mm by auto
  have "parseHdmiPresenceFromFrame bytes =
          (if matches = [] then failedParse (Some [(''raw'', PStr (bytesToHex bytes))])
           else if cand_length selected \<noteq> 4
           then failedParse (Some [(''tailLength'', PNum (cand_length selected)),
                                   (''payload'', PNums (cand_data selected))])
           else if list_ex (\<lambda>item. item \<noteq> 0 \<and> item \<noteq> 1) (cand_data selected)
           then failedParse (Some [(''payload'', PNums (cand_data selected))])
           else hdmiFrameResult (cand_data selected))"
    by (simp add: parseHdmiPresenceFromFrame_def Let_def matches_def len4_def pool_def selected_def
        hdmiFrameResult_def)
  then show ?thesis
    using ne four by (simp add: sel hdmiFlagsValid_def)
qed

lemma hdmi_tail_match:
  "hdmiMatchAt (pre @ [0, 4, 0, a, b, c, d, cs]) (int (length pre))
     = Some \<lparr> cand_index = int (length pre), cand_length = 4, cand_data = [a, b, c, d] \<rparr>"
proof -
  have n: "nat (int (length pre) + 1) = length pre + 1" "nat (int (length pre) + 2) = length pre + 2"
    "nat (int (length pre) + 3) = length pre + 3"
    by simp_all
  show ?thesis
    by (simp add: hdmiMatchAt_def Let_def nth_append js_slice_def n)
qed

lemma hdmi_frame:
  "parseHdmiPresenceFromFrame (pre @ [0, 4, 0, a, b, c, d, cs]) =
     (if hdmiFlagsValid [a, b, c, d] then hdmiFrameResult [a, b, c, d]
      else failedParse (Some [(''payload'', PNums [a, b, c, d])]))"
  using hdmi_selected [OF hdmi_tail_match, of pre a b c d cs] by simp

lemma hdmi_ok_payload:
  assumes "pr_ok (parseHdmiPresenceFromFrame bytes)"
  shows "8 \<le> length bytes
         \<and> hdmiFlagsValid (js_slice bytes (int (length bytes) - 5) (int (length bytes) - 1))"
proof -
  define matches where "matches = List.map_filter (hdmiMatchAt bytes) [0 .. int (length bytes) - 4]"
  define len4 where "len4 = filter (\<lambda>item. cand_length item = 4) matches"
  define pool where "pool = (if len4 \<noteq> [] then len4 else matches)"
  define selected where "selected = lastByIndex (hd pool) (tl pool)"
  have "parseHdmiPresenceFromFrame bytes =
          (if matches = [] then failedParse (Some [(''raw'', PStr (bytesToHex bytes))])
           else if cand_length selected \<noteq> 4
           then failedParse (Some [(''tailLength'', PNum (cand_length selected)),
                                   (''payload'', PNums (cand_data selected))])
           else if list_ex (\<lambda>item. item \<noteq> 0 \<and> item \<noteq> 1) (cand_data selected)
           then failedParse (Some [(''payload'', PNums (cand_data selected))])
           else hdmiFrameResult (cand_data selected))"
    by (simp add: parseHdmiPresenceFromFrame_def Let_def matches_def len4_def pool_def selected_def
        hdmiFrameResult_def)
  with assms have ne: "matches \<noteq> []" and four: "cand_length selected = 4"
    and valid: "hdmiFlagsValid (cand_data selected)"
    by (auto simp: failedParse_def hdmiFlagsValid_def split: if_splits)
  have "pool \<noteq> []" using ne by (simp add: pool_def)
  then have "selected \<in> set pool" unfolding selected_def by (rule lastByIndex_pool)
  then have "selected \<in> set matches" by (auto simp: pool_def len4_def split: if_splits)
  then obtain i where i: "0 \<le> i" "hdmiMatchAt bytes i = Some selected"
    unfolding matches_def hdmi_matches_mem by blast
  have e: "i + 3 = int (length bytes) - 5"
    using hdmiMatchAt_Some(2) [OF i(2)] four by simp
  have d: "cand_data selected = js_slice bytes (int (length bytes) - 5) (int (length bytes) - 1)"
    using hdmiMatchAt_Some(3) [OF i(2)] by (simp only: e)
  show ?thesis using i(1) e valid by (simp add: d)
qed

lemma c25b_ok:
  "pr_ok (parseSemanticByCode ''C25B'' dat) \<longleftrightarrow> length dat = 4 \<and> hdmiFlagsValid dat"
  by (simp add: parseSemanticByCode_def failedParse_def js_slice_def Let_def hdmiFlagsValid_def)

lemma hdmiFlagsValid_iff: "hdmiFlagsValid flags \<longleftrightarrow> \<not> (\<exists>b \<in> set flags. b \<noteq> 0 \<and> b \<noteq> 1)"
  by (simp add: hdmiFlagsValid_def list_ex_iff)

text \<open>
  Claim C8. The payload \<open>01 00 01 00\<close> parses with \<open>ok = true\<close> to
  \<open>{hdmi1:1, hdmi2:0, hdmi3:1, hdmi4:0}\<close>, by the payload parser \<open>C25B\<close> of
  \<open>parseSemanticByCode\<close> and by the frame parser \<open>parseHdmiPresenceFromFrame\<close> on any
  frame that ends with the marker \<open>00 04 00\<close>, this payload and a checksum byte; the
  frame parser also derives the active inputs \<open>HDMI1, HDMI3\<close>. A payload with a byte
  other than 0 or 1 gives \<open>ok = false\<close> in both, and whenever the frame parser says
  \<open>ok\<close> the four bytes before the checksum byte are all 0 or 1.
\<close>

theorem hdmi_bitmap_parser:
  "parseSemanticByCode ''C25B'' [1, 0, 1, 0]
     = \<lparr> pr_ok = True,
         pr_parsed = Some [(''hdmi1'', PNum 1), (''hdmi2'', PNum 0), (''hdmi3'', PNum 1), (''hdmi4'', PNum 0)],
         pr_value = None \<rparr>
   \<and> parseHdmiPresenceFromFrame (pre @ [0, 4, 0, 1, 0, 1, 0, cs])
     = \<lparr> pr_ok = True,
         pr_parsed = Some [(''hdmi1'', PNum 1), (''hdmi2'', PNum 0), (''hdmi3'', PNum 1), (''hdmi4'', PNum 0),
                           (''payloadHex'', PStr ''01 00 01 00''),
                           (''activeInputs'', PStrs [''HDMI1'', ''HDMI3''])],
         pr_value = None \<rparr>
   \<and> ((\<exists>b \<in> set dat. b \<noteq> 0 \<and> b \<noteq> 1) \<longrightarrow> \<not> pr_ok (parseSemanticByCode ''C25B'' dat))
   \<and> ((\<exists>b \<in> set [f1, f2, f3, f4]. b \<noteq> 0 \<and> b \<noteq> 1)
        \<longrightarrow> \<not> pr_ok (parseHdmiPresenceFromFrame (pre' @ [0, 4, 0, f1, f2, f3, f4, cs'])))
   \<and> (pr_ok (parseHdmiPresenceFromFrame frame) \<longrightarrow>
        8 \<le> length frame
        \<and> \<not> (\<exists>b \<in> set (js_slice frame (int (length frame) - 5) (int (length frame) - 1)).
                b \<noteq> 0 \<and> b \<noteq> 1))"
proof -
  have a: "parseSemanticByCode ''C25B'' [1, 0, 1, 0]
     = \<lparr> pr_ok = True,
         pr_parsed = Some [(''hdmi1'', PNum 1), (''hdmi2'', PNum 0), (''hdmi3'', PNum 1), (''hdmi4'', PNum 0)],
         pr_value = None \<rparr>"
    by (simp add: parseSemanticByCode_def js_slice_def Let_def)
  have hex: "bytesToHex [1, 0, 1, 0] = ''01 00 01 00''" by code_simp
  have v: "hdmiFlagsValid [1, 0, 1, 0]" by (simp add: hdmiFlagsValid_def)
  have b: "parseHdmiPresenceFromFrame (pre @ [0, 4, 0, 1, 0, 1, 0, cs])
     = \<lparr> pr_ok = True,
         pr_parsed = Some [(''hdmi1'', PNum 1), (''hdmi2'', PNum 0), (''hdmi3'', PNum 1), (''hdmi4'', PNum 0),
                           (''payloadHex'', PStr ''01 00 01 00''),
                           (''activeInputs'', PStrs [''HDMI1'', ''HDMI3''])],
         pr_value = None \<rparr>"
    by (simp add: hdmi_frame v hdmiFrameResult_def hex upt_rec)
  have c: "(\<exists>b \<in> set dat. b \<noteq> 0 \<and> b \<noteq> 1) \<longrightarrow> \<not> pr_ok (parseSemanticByCode ''C25B'' dat)"
    by (simp add: c25b_ok hdmiFlagsValid_iff)
  have d: "(\<exists>b \<in> set [f1, f2, f3, f4]. b \<noteq> 0 \<and> b \<noteq> 1)
        \<longrightarrow> \<not> pr_ok (parseHdmiPresenceFromFrame (pre' @ [0, 4, 0, f1, f2, f3, f4, cs']))"
    by (simp add: hdmi_frame hdmiFlagsValid_iff failedParse_def)
  have e: "pr_ok (parseHdmiPresenceFromFrame frame) \<longrightarrow>
        8 \<le> length frame
        \<and> \<not> (\<exists>b \<in> set (js_slice frame (int (length frame) - 5) (int (length frame) - 1)).
                b \<noteq> 0 \<and> b \<noteq> 1)"
    using hdmi_ok_payload [of frame] by (simp add: hdmiFlagsValid_iff)
  show ?thesis using a b c d e by blast
qed

text \<open>
  The theorem at the payload \<open>01 00 02 00\<close>, alone and in a frame, and at a frame with
  the payload \<open>01 00 01 00\<close>.
\<close>

theorem hdmi_bitmap_parser_witness:
  "\<not> pr_ok (parseSemanticByCode ''C25B'' [1, 0, 2, 0])
   \<and> \<not> pr_ok (parseHdmiPresenceFromFrame [85, 85, 85, 85, 85, 85, 85, 0, 208, 92, 194, 0, 4, 0, 1, 0, 2, 0, 57])
   \<and> pr_ok (parseHdmiPresenceFromFrame [85, 85, 85, 85, 85, 85, 85, 0, 208, 92, 194, 0, 4, 0, 1, 0, 1, 0, 56])
   \<and> js_slice [85, 85, 85, 85, 85, 85, 85, 0, 208, 92, 194, 0, 4, 0, 1, 0, 1, 0, 56] 14 18 = [1, 0, 1, 0]"
proof -
  have ok: "pr_ok (parseHdmiPresenceFromFrame
              [85, 85, 85, 85, 85, 85, 85, 0, 208, 92, 194, 0, 4, 0, 1, 0, 1, 0, 56])"
    by code_simp
  have sl: "js_slice [85, 85, 85, 85, 85, 85, 85, 0, 208, 92, 194, 0, 4, 0, 1, 0, 1, 0, 56] 14 18
              = [1, 0, 1, 0]"
    by code_simp
  show ?thesis
    using hdmi_bitmap_parser [of "[]" 0 "[1, 0, 2, 0]" 1 0 2 0 "[85, 85, 85, 85, 85, 85, 85, 0, 208, 92, 194]" 57
            "[85, 85, 85, 85, 85, 85, 85, 0, 208, 92, 194, 0, 4, 0, 1, 0, 1, 0, 56]"]
          ok sl
    by simp
qed

section \<open>Out-of-range values: issues replay and the command line\<close>

lemma clamp_out_of_range:
  assumes "x < 0 \<or> 100 < x"
  shows "max 0 (min 100 (mathRound x)) = (if x < 0 then 0 else 100)"
proof (cases "x < 0")
  case True
  then have "x + 1 / 2 < of_int 1" by simp
  then have "\<lfloor>x + 1 / 2\<rfloor> < 1" by (simp only: floor_less_iff)
  then show ?thesis using True by (simp add: mathRound_def)
next
  case False
  then have "of_int 100 \<le> x + 1 / 2" using assms by simp
  then have "100 \<le> \<lfloor>x + 1 / 2\<rfloor>" by (simp only: le_floor_iff)
  then show ?thesis using False by (simp add: mathRound_def)
qed

lemma parseArgs_append:
  "parseArgs (pre @ rest) d =
     (case parseArgs pre d of Inl e \<Rightarrow> Inl e | Inr d' \<Rightarrow> parseArgs rest d')"
  by (induction pre d rule: parseArgs.induct) (auto split: sum.splits jsnum.splits)

lemma parseArgs_bad_value:
  assumes "x < 0 \<or> 100 < x"
  shows "parseArgs (ArgValue (Finite x) # post) d = Inl InvalidValueArg"
  using assms by auto

lemma issues_numeric_step:
  assumes "iss_value record = Some (Finite x)"
    and "issueSetCode record = Some code"
    and "numericSpecs code = Some spec"
    and "(orEmpty (iss_commandKey record), code, Some (Finite x)) \<notin> set seen"
    and "buildGeneratedNumericCase spec (max 0 (min 100 (mathRound x))) src_generated = Inr c"
  shows "buildIssuesLoop byKey bySetCode numericSpecs (record # records) cases seen
           = buildIssuesLoop byKey bySetCode numericSpecs records (cases @ [c])
               ((orEmpty (iss_commandKey record), code, Some (Finite x)) # seen)"
  using assms by (simp add: issueSetCode_def Let_def orEmpty_def)

text \<open>
  Claim C10. In issues replay, a record of a numeric set code whose value is a finite
  number below 0 or above 100 is not rejected: the loop goes on to the next record with
  one more case, synthesized from the value rounded and clamped (0 below the range, 100
  above it). On the command line the same number after \<open>--value\<close> makes \<open>parseOptions\<close>
  fail, and the run ends with that error, no record and nothing transmitted.
\<close>

theorem issues_value_clamped:
  assumes "iss_value record = Some (Finite x)" and "x < 0 \<or> 100 < x"
    and "issueSetCode record = Some code"
    and "deriveNumericSpecs bySetCode = Inr numericSpecs"
    and "numericSpecs code = Some spec"
    and "parseOptionalHex (row_replyHex (spec_baseRow spec)) = Inr expectedReply"
    and "(orEmpty (iss_commandKey record), code, Some (Finite x)) \<notin> set seen"
  shows "(\<exists>c. buildGeneratedNumericCase spec (if x < 0 then 0 else 100) src_generated = Inr c
              \<and> case_generatedValue c = Some (if x < 0 then 0 else 100)
              \<and> buildIssuesLoop byKey bySetCode numericSpecs (record # records) cases seen
                  = buildIssuesLoop byKey bySetCode numericSpecs records (cases @ [c])
                      ((orEmpty (iss_commandKey record), code, Some (Finite x)) # seen))
         \<and> (\<forall>d. parseArgs pre initialDraft = Inr d \<longrightarrow>
               parseOptions (pre @ ArgValue (Finite x) # post) = Inl InvalidValueArg
               \<and> run (inp\<lparr> in_argv := pre @ ArgValue (Finite x) # post \<rparr>)
                   = \<lparr> res_records = [], res_transmitted = [],
                       res_error = Some (OptionError InvalidValueArg) \<rparr>)"
proof -
  let ?v = "if x < 0 then 0 else 100 :: int"
  have cl: "max 0 (min 100 (mathRound x)) = ?v"
    using assms(2) by (rule clamp_out_of_range)
  have "derivedSpec bySetCode code spec"
    using assms(4,5) by (rule deriveNumericSpecs_sound)
  then have "\<exists>c. buildGeneratedNumericCase spec ?v src_generated = Inr c"
    using assms(6) by (simp only: generated_exists) blast
  then obtain c where c: "buildGeneratedNumericCase spec ?v src_generated = Inr c" by blast
  then have g: "case_generatedValue c = Some ?v"
    by (auto simp: buildGeneratedNumericCase_def split: sum.splits option.splits)
  have c': "buildGeneratedNumericCase spec (max 0 (min 100 (mathRound x))) src_generated = Inr c"
    using c by (simp only: cl)
  note step = issues_numeric_step [where numericSpecs = numericSpecs and code = code
      and byKey = byKey and bySetCode = bySetCode and records = records and cases = cases,
      OF assms(1,3,5,7) c']
  have first: "\<exists>c. buildGeneratedNumericCase spec ?v src_generated = Inr c
              \<and> case_generatedValue c = Some ?v
              \<and> buildIssuesLoop byKey bySetCode numericSpecs (record # records) cases seen
                  = buildIssuesLoop byKey bySetCode numericSpecs records (cases @ [c])
                      ((orEmpty (iss_commandKey record), code, Some (Finite x)) # seen)"
    using c g step by blast
  have second: "\<forall>d. parseArgs pre initialDraft = Inr d \<longrightarrow>
               parseOptions (pre @ ArgValue (Finite x) # post) = Inl InvalidValueArg
               \<and> run (inp\<lparr> in_argv := pre @ ArgValue (Finite x) # post \<rparr>)
                   = \<lparr> res_records = [], res_transmitted = [],
                       res_error = Some (OptionError InvalidValueArg) \<rparr>"
  proof (intro allI impI)
    fix d
    assume p: "parseArgs pre initialDraft = Inr d"
    have "parseArgs (pre @ ArgValue (Finite x) # post) initialDraft = Inl InvalidValueArg"
      using assms(2) by (simp only: parseArgs_append p sum.case parseArgs_bad_value)
    then have o: "parseOptions (pre @ ArgValue (Finite x) # post) = Inl InvalidValueArg"
      by (simp add: parseOptions_def initialDraft_def)
    then show "parseOptions (pre @ ArgValue (Finite x) # post) = Inl InvalidValueArg
               \<and> run (inp\<lparr> in_argv := pre @ ArgValue (Finite x) # post \<rparr>)
                   = \<lparr> res_records = [], res_transmitted = [],
                       res_error = Some (OptionError InvalidValueArg) \<rparr>"
      by (simp add: run_def abortRun_def)
  qed
  show ?thesis using first second by blast
qed

lemma generated_fields:
  assumes "buildGeneratedNumericCase spec v source = Inr c"
  shows "case_generatedValue c = Some v" and "\<not> case_isPowerCommand c"
    and "\<not> case_isDisruptiveCommand c" and "case_source c = source"
    and "case_setCode c = toCode (Some (spec_setCode spec))"
  using assms
  by (auto simp: buildGeneratedNumericCase_def split: sum.splits option.splits)

text \<open>
  The theorem at the value 150.7 for \<open>0xC203\<close>: replayed as volume 100, refused
  after \<open>--single C203 --value\<close>.
\<close>

theorem issues_value_clamped_witness:
  "(100::real) < 150.7
   \<and> issueSetCode (volumeIssue 150.7) = Some ''C203''
   \<and> (case buildIssuesCases [volumeIssue 150.7] (byKeyOf [volumeRow agreeingTemplate])
             (bySetCodeOf [volumeRow agreeingTemplate]) [''C203'' \<mapsto> volumeSpec agreeingTemplate] of
        Inl _ \<Rightarrow> False
      | Inr cs \<Rightarrow> map case_generatedValue cs = [Some 100])
   \<and> run (exampleInput [ArgSingle ''C203'', ArgValue (Finite 150.7)] [volumeRow agreeingTemplate])
       = \<lparr> res_records = [], res_transmitted = [], res_error = Some (OptionError InvalidValueArg) \<rparr>"
proof -
  let ?rows = "[volumeRow agreeingTemplate]"
  let ?specs = "[''C203'' \<mapsto> volumeSpec agreeingTemplate]"
  let ?r = "volumeIssue 150.7"
  have v: "iss_value ?r = Some (Finite 150.7)" by (simp add: volumeIssue_def)
  have out: "(150.7::real) < 0 \<or> 100 < (150.7::real)" by simp
  have code: "issueSetCode ?r = Some ''C203''"
    by code_simp
  have len: "length [85, 85, 85, 85, 85, 85, 85, 0, 91, 0, 0, 0, 0, 0, 0, 0, 0, 0, 0, 0,
          0, 0, 0, 0, 0, 0, 0, 0, 0, 0, 0, 0, 0, 0, 0, 0, 0, 0, 0, 91::int] = 40" by simp
  have derive: "deriveNumericSpecs (bySetCodeOf ?rows) = Inr ?specs"
    using agreeing_parse len by (rule volume_derive)
  have spec: "?specs ''C203'' = Some (volumeSpec agreeingTemplate)" by simp
  have reply: "parseOptionalHex (row_replyHex (spec_baseRow (volumeSpec agreeingTemplate))) = Inr None"
    by (simp add: volumeSpec_def volumeRow_def parseOptionalHex_def)
  have fresh: "(orEmpty (iss_commandKey ?r), ''C203'', Some (Finite 150.7)) \<notin> set []" by simp
  have pre: "parseArgs [ArgSingle ''C203''] initialDraft
               = Inr (initialDraft\<lparr> draft_mode := Some mode_single, draft_singleSelector := Some ''C203'' \<rparr>)"
    by (simp add: setMode_def initialDraft_def)
  note main = issues_value_clamped [OF v out code derive spec reply fresh,
      of "byKeyOf ?rows" "[]" "[]" "[ArgSingle ''C203'']" "[]"
         "exampleInput [] ?rows"]
  let ?v = "if (150.7::real) < 0 then 0 else 100 :: int"
  have vv: "?v = 100" by simp
  from main have "\<exists>c. buildGeneratedNumericCase (volumeSpec agreeingTemplate) ?v src_generated = Inr c
              \<and> case_generatedValue c = Some ?v
              \<and> buildIssuesLoop (byKeyOf ?rows) (bySetCodeOf ?rows) ?specs (?r # []) [] []
                  = buildIssuesLoop (byKeyOf ?rows) (bySetCodeOf ?rows) ?specs [] ([] @ [c])
                      ((orEmpty (iss_commandKey ?r), ''C203'', Some (Finite 150.7)) # [])"
    by (rule conjunct1)
  then obtain c where
    c0: "buildGeneratedNumericCase (volumeSpec agreeingTemplate) ?v src_generated = Inr c"
    and g0: "case_generatedValue c = Some ?v"
    and loop: "buildIssuesLoop (byKeyOf ?rows) (bySetCodeOf ?rows) ?specs (?r # []) [] []
                  = buildIssuesLoop (byKeyOf ?rows) (bySetCodeOf ?rows) ?specs [] ([] @ [c])
                      ((orEmpty (iss_commandKey ?r), ''C203'', Some (Finite 150.7)) # [])"
    by blast
  have c: "buildGeneratedNumericCase (volumeSpec agreeingTemplate) 100 src_generated = Inr c"
    using c0 by (simp only: vv)
  have g: "case_generatedValue c = Some 100" using g0 by (simp only: vv)
  have issue: "isIssue ?r" by code_simp
  have np: "\<not> case_isPowerCommand c" using c by (rule generated_fields)
  have built: "buildIssuesCases [?r] (byKeyOf ?rows) (bySetCodeOf ?rows) ?specs = Inr [c]"
    unfolding buildIssuesCases_def using issue np by (simp add: loop del: buildIssuesLoop.simps(2))
  have r: "run (exampleInput [ArgSingle ''C203'', ArgValue (Finite 150.7)] ?rows)
       = \<lparr> res_records = [], res_transmitted = [], res_error = Some (OptionError InvalidValueArg) \<rparr>"
    using conjunct2 [OF main] pre by (simp add: exampleInput_def)
  show ?thesis using code built g r by simp
qed

end
